theory Spec2Isabelle
  imports Complex_Main "HOL-Library.Multiset"
begin

section \<open>JavaScript values and records\<close>

text \<open>
  The budget tracker keeps its records as plain JavaScript objects whose fields hold
  strings and numbers.  A number is a finite real or \<open>NaN\<close>; floating-point rounding and
  the infinities are outside the model.  Strings are sequences of 8-bit characters.
\<close>

datatype jsval = JUndefined | JNull | JBool bool | JNum real | JNaN | JStr string

type_synonym jsobj = "string \<rightharpoonup> jsval"

text \<open>Reading a property: \<open>ob.k\<close> is \<open>undefined\<close> when the object has no such key.\<close>

definition getProp :: "jsobj \<Rightarrow> string \<Rightarrow> jsval" where
  "getProp ob k = (case ob k of None \<Rightarrow> JUndefined | Some v \<Rightarrow> v)"

text \<open>Truthiness, \<open>a || b\<close> and \<open>a ?? b\<close>.\<close>

fun truthy :: "jsval \<Rightarrow> bool" where
  "truthy JUndefined = False"
| "truthy JNull = False"
| "truthy (JBool b) = b"
| "truthy (JNum r) = (r \<noteq> 0)"
| "truthy JNaN = False"
| "truthy (JStr s) = (s \<noteq> [])"

definition js_or :: "jsval \<Rightarrow> jsval \<Rightarrow> jsval" where
  "js_or a b = (if truthy a then a else b)"

fun nullish :: "jsval \<Rightarrow> bool" where
  "nullish JUndefined = True"
| "nullish JNull = True"
| "nullish v = False"

definition js_coalesce :: "jsval \<Rightarrow> jsval \<Rightarrow> jsval" where
  "js_coalesce a b = (if nullish a then b else a)"

section \<open>Built-ins the code calls\<close>

text \<open>
  The application calls JavaScript built-ins and the luxon date library, neither of which
  is part of the repository.  They are gathered in a record that every operation takes as
  its first argument:
  \<^item> \<open>Number_of s\<close> is \<open>Number(s)\<close> and \<open>parseFloat_of s\<close> is \<open>parseFloat(s)\<close> on a string,
    \<open>None\<close> standing for \<open>NaN\<close>;
  \<^item> \<open>String_of r\<close> is \<open>String(r)\<close> and \<open>toFixed0 r\<close> is \<open>r.toFixed(0)\<close> on a finite number;
  \<^item> \<open>localeCompare a b\<close> is \<open>a.localeCompare(b)\<close>;
  \<^item> \<open>fromISO s\<close> is \<open>DateTime.fromISO(s)\<close>, \<open>fromFormat s\<close> is
    \<open>DateTime.fromFormat(s, 'yyyy-MM-dd')\<close>; a valid \<open>DateTime\<close> is represented by its
    \<open>valueOf()\<close>, the epoch milliseconds that \<open><\<close>, \<open><=\<close> and \<open>>=\<close> compare, and an invalid
    one by \<open>None\<close>;
  \<^item> \<open>endOfMonth d\<close> is \<open>d.endOf('month')\<close>, \<open>plusMonth d\<close> is \<open>d.plus({ months: 1 })\<close> and
    \<open>toISODate d\<close> is \<open>d.toISODate()\<close>.
\<close>

record runtime =
  Number_of :: "string \<Rightarrow> real option"
  parseFloat_of :: "string \<Rightarrow> real option"
  String_of :: "real \<Rightarrow> string"
  toFixed0 :: "real \<Rightarrow> string"
  localeCompare :: "string \<Rightarrow> string \<Rightarrow> int"
  fromISO :: "string \<Rightarrow> int option"
  fromFormat :: "string \<Rightarrow> int option"
  endOfMonth :: "int \<Rightarrow> int"
  plusMonth :: "int \<Rightarrow> int"
  toISODate :: "int \<Rightarrow> string"

text \<open>\<open>String(v)\<close> and \<open>Number(v)\<close> on an arbitrary value (\<open>None\<close> is \<open>NaN\<close>).\<close>

fun toStr :: "runtime \<Rightarrow> jsval \<Rightarrow> string" where
  "toStr rt JUndefined = ''undefined''"
| "toStr rt JNull = ''null''"
| "toStr rt (JBool b) = (if b then ''true'' else ''false'')"
| "toStr rt (JNum r) = String_of rt r"
| "toStr rt JNaN = ''NaN''"
| "toStr rt (JStr s) = s"

fun toNumber :: "runtime \<Rightarrow> jsval \<Rightarrow> real option" where
  "toNumber rt JUndefined = None"
| "toNumber rt JNull = Some 0"
| "toNumber rt (JBool b) = Some (if b then 1 else 0)"
| "toNumber rt (JNum r) = Some r"
| "toNumber rt JNaN = None"
| "toNumber rt (JStr s) = Number_of rt s"

section \<open>String helpers\<close>

text \<open>
  \<open>String.prototype.trim\<close> strips white space and line terminators from both ends; among
  8-bit characters these are tab, line feed, vertical tab, form feed, carriage return,
  space and the no-break space.
\<close>

definition isSpace :: "char \<Rightarrow> bool" where
  "isSpace c = (c \<in> {CHR 0x09, CHR 0x0A, CHR 0x0B, CHR 0x0C, CHR 0x0D, CHR 0x20, CHR 0xA0})"

definition trim :: "string \<Rightarrow> string" where
  "trim s = rev (dropWhile isSpace (rev (dropWhile isSpace s)))"

text \<open>
  \<open>toLowerCase\<close> on the letters A to Z.  Other characters are left as they are; no 8-bit
  character outside A to Z becomes an ASCII letter in lower case, so comparisons with the
  ASCII words of the code come out as in JavaScript.
\<close>

definition lowerChar :: "char \<Rightarrow> char" where
  "lowerChar c =
     (case map_of (zip ''ABCDEFGHIJKLMNOPQRSTUVWXYZ'' ''abcdefghijklmnopqrstuvwxyz'') c of
        None \<Rightarrow> c | Some l \<Rightarrow> l)"

definition toLowerCase :: "string \<Rightarrow> string" where
  "toLowerCase s = map lowerChar s"

text \<open>\<open>s.startsWith(p)\<close> and \<open>s.includes(p)\<close>.\<close>

fun startsWith :: "string \<Rightarrow> string \<Rightarrow> bool" where
  "startsWith s [] = True"
| "startsWith [] (p # ps) = False"
| "startsWith (c # cs) (p # ps) = (c = p \<and> startsWith cs ps)"

fun js_includes :: "string \<Rightarrow> string \<Rightarrow> bool" where
  "js_includes [] p = (p = [])"
| "js_includes (c # cs) p = (startsWith (c # cs) p \<or> js_includes cs p)"

text \<open>
  \<open>s.split(sep)\<close> for a one-character separator: the pieces between the separators, one
  piece (the whole string) when there is none.
\<close>

fun splitOn :: "char \<Rightarrow> string \<Rightarrow> string list" where
  "splitOn sep [] = [[]]"
| "splitOn sep (c # cs) =
     (if c = sep then [] # splitOn sep cs
      else (case splitOn sep cs of [] \<Rightarrow> [[c]] | p # ps \<Rightarrow> (c # p) # ps))"

text \<open>\<open>parts.join(sep)\<close> on strings.\<close>

fun joinWith :: "char \<Rightarrow> string list \<Rightarrow> string" where
  "joinWith sep [] = []"
| "joinWith sep [p] = p"
| "joinWith sep (p # q # ps) = p @ sep # joinWith sep (q # ps)"

section \<open>A reference runtime\<close>

text \<open>
  The general theorems below hold for every runtime.  The scenarios are evaluated in the
  following one, which agrees with JavaScript and luxon (in the UTC zone) on the inputs the
  scenarios use: plain decimal numerals and calendar dates \<open>YYYY-MM-DD\<close>.
\<close>

definition digitVal :: "char \<Rightarrow> nat option" where
  "digitVal c = map_of (zip ''0123456789'' [0, 1, 2, 3, 4, 5, 6, 7, 8, 9]) c"

fun natOfDigits :: "nat \<Rightarrow> string \<Rightarrow> nat option" where
  "natOfDigits acc [] = Some acc"
| "natOfDigits acc (c # cs) =
     (case digitVal c of None \<Rightarrow> None | Some d \<Rightarrow> natOfDigits (10 * acc + d) cs)"

text \<open>An unsigned numeral \<open>ddd\<close>, \<open>ddd.ddd\<close>, \<open>ddd.\<close> or \<open>.ddd\<close>.\<close>

definition unsignedOf :: "string \<Rightarrow> real option" where
  "unsignedOf s =
     (let ip = takeWhile (\<lambda>c. c \<noteq> CHR ''.'') s;
          fp = drop (Suc (length ip)) s
      in if ip = [] \<and> fp = [] then None
         else (case (natOfDigits 0 ip, natOfDigits 0 fp) of
                 (Some i, Some f) \<Rightarrow> Some (real i + real f / 10 ^ length fp)
               | _ \<Rightarrow> None))"

definition refNumber :: "string \<Rightarrow> real option" where
  "refNumber s =
     (case trim s of
        [] \<Rightarrow> Some 0
      | c # cs \<Rightarrow>
          if c = CHR ''-'' then map_option uminus (unsignedOf cs)
          else if c = CHR ''+'' then unsignedOf cs
          else unsignedOf (c # cs))"

definition digitChar :: "nat \<Rightarrow> char" where
  "digitChar d = ''0123456789'' ! (d mod 10)"

text \<open>The decimal digits of a natural number below \<open>10 ^ 16\<close>, without leading zeros.\<close>

definition natStr :: "nat \<Rightarrow> string" where
  "natStr n =
     (case dropWhile (\<lambda>c. c = CHR ''0'')
             (map (\<lambda>i. digitChar (n div 10 ^ i))
                  [15, 14, 13, 12, 11, 10, 9, 8, 7, 6, 5, 4, 3, 2, 1, 0]) of
        [] \<Rightarrow> ''0'' | ds \<Rightarrow> ds)"

text \<open>The first sixteen decimals of a fraction, without trailing zeros.\<close>

definition fracStr :: "real \<Rightarrow> string" where
  "fracStr x =
     rev (dropWhile (\<lambda>c. c = CHR ''0'')
            (rev (map (\<lambda>i. digitChar (nat \<lfloor>x * 10 ^ i\<rfloor>))
                      [1, 2, 3, 4, 5, 6, 7, 8, 9, 10, 11, 12, 13, 14, 15, 16])))"

definition refString :: "real \<Rightarrow> string" where
  "refString r =
     (let a = \<bar>r\<bar>; i = nat \<lfloor>a\<rfloor>; f = a - real i
      in (if r < 0 then ''-'' else []) @ natStr i
         @ (if f = 0 then [] else CHR ''.'' # fracStr f))"

text \<open>
  \<open>parseFloat\<close> skips leading white space and reads the longest numeral the text starts
  with: an optional sign, digits, and a point with further digits.
\<close>

definition refParseFloat :: "string \<Rightarrow> real option" where
  "refParseFloat s =
     (let t = dropWhile isSpace s;
          signed = (t \<noteq> [] \<and> hd t \<in> {CHR ''-'', CHR ''+''});
          u = (if signed then tl t else t);
          ip = takeWhile (\<lambda>c. digitVal c \<noteq> None) u;
          r = drop (length ip) u;
          fp = (if r \<noteq> [] \<and> hd r = CHR ''.''
                then takeWhile (\<lambda>c. digitVal c \<noteq> None) (tl r) else [])
      in if ip = [] \<and> fp = [] then None
         else (if signed \<and> hd t = CHR ''-'' then map_option uminus else id)
                (unsignedOf (ip @ CHR ''.'' # fp)))"

text \<open>\<open>toFixed(0)\<close>: the nearest integer, a half going away from zero, in decimal digits.\<close>

definition refToFixed0 :: "real \<Rightarrow> string" where
  "refToFixed0 r = (if r < 0 then ''-'' else []) @ natStr (nat \<lfloor>\<bar>r\<bar> + 1 / 2\<rfloor>)"

text \<open>Comparison of strings by character code, as \<open>-1\<close>, \<open>0\<close> or \<open>1\<close>.\<close>

fun refCompare :: "string \<Rightarrow> string \<Rightarrow> int" where
  "refCompare [] [] = 0"
| "refCompare [] (b # bs) = -1"
| "refCompare (a # as) [] = 1"
| "refCompare (a # as) (b # bs) =
     (if a = b then refCompare as bs
      else if (of_char a :: nat) < of_char b then -1 else 1)"

text \<open>Calendar arithmetic: days since 1970-01-01 of a civil date, and back.\<close>

definition isLeap :: "int \<Rightarrow> bool" where
  "isLeap y = (y mod 4 = 0 \<and> (y mod 100 \<noteq> 0 \<or> y mod 400 = 0))"

definition daysInMonth :: "int \<Rightarrow> int \<Rightarrow> int" where
  "daysInMonth y m =
     (if m = 2 then (if isLeap y then 29 else 28)
      else if m \<in> {4, 6, 9, 11} then 30 else 31)"

definition daysFromCivil :: "int \<Rightarrow> int \<Rightarrow> int \<Rightarrow> int" where
  "daysFromCivil y m d =
     (let y' = (if m \<le> 2 then y - 1 else y);
          era = y' div 400;
          yoe = y' - era * 400;
          doy = (153 * (if m > 2 then m - 3 else m + 9) + 2) div 5 + d - 1;
          doe = yoe * 365 + yoe div 4 - yoe div 100 + doy
      in era * 146097 + doe - 719468)"

definition civilFromDays :: "int \<Rightarrow> int \<times> int \<times> int" where
  "civilFromDays z0 =
     (let z = z0 + 719468;
          era = z div 146097;
          doe = z - era * 146097;
          yoe = (doe - doe div 1460 + doe div 36524 - doe div 146096) div 365;
          doy = doe - (365 * yoe + yoe div 4 - yoe div 100);
          mp = (5 * doy + 2) div 153;
          d = doy - (153 * mp + 2) div 5 + 1;
          m = (if mp < 10 then mp + 3 else mp - 9);
          y = yoe + era * 400
      in ((if m \<le> 2 then y + 1 else y), m, d))"

definition msPerDay :: int where
  "msPerDay = 86400000"

text \<open>A calendar date \<open>YYYY-MM-DD\<close> as the epoch milliseconds of its midnight.\<close>

definition refDate :: "string \<Rightarrow> int option" where
  "refDate s =
     (if length s = 10 \<and> s ! 4 = CHR ''-'' \<and> s ! 7 = CHR ''-''
      then (case (natOfDigits 0 (take 4 s), natOfDigits 0 (take 2 (drop 5 s)),
                  natOfDigits 0 (drop 8 s)) of
              (Some y, Some m, Some d) \<Rightarrow>
                if 1 \<le> m \<and> m \<le> 12 \<and> 1 \<le> d \<and> int d \<le> daysInMonth (int y) (int m)
                then Some (daysFromCivil (int y) (int m) (int d) * msPerDay)
                else None
            | _ \<Rightarrow> None)
      else None)"

definition refEndOfMonth :: "int \<Rightarrow> int" where
  "refEndOfMonth t =
     (case civilFromDays (t div msPerDay) of
        (y, m, d) \<Rightarrow> daysFromCivil y m (daysInMonth y m) * msPerDay + (msPerDay - 1))"

definition refPlusMonth :: "int \<Rightarrow> int" where
  "refPlusMonth t =
     (case civilFromDays (t div msPerDay) of
        (y, m, d) \<Rightarrow>
          (let y' = (if m = 12 then y + 1 else y); m' = (if m = 12 then 1 else m + 1)
           in daysFromCivil y' m' (min d (daysInMonth y' m')) * msPerDay + t mod msPerDay))"

definition pad2 :: "nat \<Rightarrow> string" where
  "pad2 n = [digitChar (n div 10), digitChar n]"

definition pad4 :: "nat \<Rightarrow> string" where
  "pad4 n = [digitChar (n div 1000), digitChar (n div 100), digitChar (n div 10), digitChar n]"

definition refISODate :: "int \<Rightarrow> string" where
  "refISODate t =
     (case civilFromDays (t div msPerDay) of
        (y, m, d) \<Rightarrow> pad4 (nat y) @ ''-'' @ pad2 (nat m) @ ''-'' @ pad2 (nat d))"

definition refRuntime :: runtime where
  "refRuntime = \<lparr>Number_of = refNumber, parseFloat_of = refParseFloat,
     String_of = refString, toFixed0 = refToFixed0, localeCompare = refCompare,
     fromISO = refDate, fromFormat = refDate, endOfMonth = refEndOfMonth,
     plusMonth = refPlusMonth, toISODate = refISODate\<rparr>"

section \<open>The application state and the undo stack\<close>

datatype tab = Bills | Income | Transactions | Budgets | Categories

text \<open>
  \<open>data\<close> is \<open>state.data\<close>, \<open>undoStack\<close> the module-level stack of snapshots, and \<open>alerts\<close>
  the messages shown to the user through \<open>alert\<close>, oldest first.  Re-rendering a table
  changes none of these.  The writers \<open>saveBillsToCSV\<close> and \<open>saveTransactionsToCSV\<close> work
  asynchronously and only when a data folder has been selected; they change no collection
  and show an alert only if writing to the folder fails.  The model is of a session in
  which no write fails (for one, a session without a data folder), and leaves both out.
\<close>

record state =
  data :: "tab \<Rightarrow> jsobj list"
  currentMonth :: string
  undoStack :: "(tab \<times> jsobj list) list"
  alerts :: "string list"

text \<open>
  \<open>JSON.parse(JSON.stringify(x))\<close> on a flat record: a property holding \<open>undefined\<close> is
  dropped, \<open>NaN\<close> comes back as \<open>null\<close>, every other value is copied.
\<close>

fun jsonValue :: "jsval \<Rightarrow> jsval option" where
  "jsonValue JUndefined = None"
| "jsonValue JNaN = Some JNull"
| "jsonValue v = Some v"

definition jsonClone :: "jsobj \<Rightarrow> jsobj" where
  "jsonClone ob = (\<lambda>k. case ob k of None \<Rightarrow> None | Some v \<Rightarrow> jsonValue v)"

definition pushUndo :: "tab \<Rightarrow> state \<Rightarrow> state" where
  "pushUndo t s =
     (let st = undoStack s @ [(t, map jsonClone (data s t))]
      in s\<lparr>undoStack := (if length st > 20 then tl st else st)\<rparr>)"

text \<open>
  Of the five writers \<open>save...ToCSV\<close> the sources define the two for bills and transactions.
  A call of one of the other three raises a \<open>ReferenceError\<close>, which ends the handler that
  made the call and leaves the state as it is at the call.  \<open>deleteRow\<close>, \<open>deleteBill\<close>
  and the bulk-delete handler do nothing to the state after their writer, so the error does
  not show in their models; \<open>undoLastAction\<close> calls \<open>alert('Undo complete!')\<close> after the
  writer, and only reaches it on the two tabs whose writer exists.
\<close>

definition writerDefined :: "tab \<Rightarrow> bool" where
  "writerDefined t \<longleftrightarrow> t = Bills \<or> t = Transactions"

definition undoLastAction :: "state \<Rightarrow> state" where
  "undoLastAction s =
     (if undoStack s = [] then s\<lparr>alerts := alerts s @ [''Nothing to undo.'']\<rparr>
      else let l = last (undoStack s);
               s1 = s\<lparr>undoStack := butlast (undoStack s), data := (data s)(fst l := snd l)\<rparr>
           in if writerDefined (fst l)
              then s1\<lparr>alerts := alerts s1 @ [''Undo complete!'']\<rparr>
              else s1)"

text \<open>\<open>Array.prototype.findIndex\<close> (\<open>None\<close> for \<open>-1\<close>) and \<open>splice(index, 1)\<close>.\<close>

fun findIndex :: "('a \<Rightarrow> bool) \<Rightarrow> 'a list \<Rightarrow> nat option" where
  "findIndex p [] = None"
| "findIndex p (x # xs) =
     (if p x then Some 0 else map_option Suc (findIndex p xs))"

definition splice1 :: "nat \<Rightarrow> 'a list \<Rightarrow> 'a list" where
  "splice1 i xs = take i xs @ drop (Suc i) xs"

definition deleteRow :: "runtime \<Rightarrow> tab \<Rightarrow> jsval \<Rightarrow> state \<Rightarrow> state" where
  "deleteRow rt t ident s =
     (let s1 = pushUndo t s
      in case findIndex (\<lambda>i. toStr rt (getProp i ''id'') = toStr rt ident) (data s1 t) of
           None \<Rightarrow> s1
         | Some ix \<Rightarrow> s1\<lparr>data := (data s1)(t := splice1 ix (data s1 t))\<rparr>)"

text \<open>
  \<open>deleteBill\<close> asks for confirmation (\<open>ok\<close> is the user's answer) and filters the bills;
  the bulk-delete handler filters the active tab's collection by the checked row ids.
\<close>

definition deleteBill :: "runtime \<Rightarrow> jsval \<Rightarrow> bool \<Rightarrow> state \<Rightarrow> state" where
  "deleteBill rt ident ok s =
     (if \<not> ok then s
      else s\<lparr>data := (data s)(Bills :=
             filter (\<lambda>b. toStr rt (getProp b ''id'') \<noteq> toStr rt ident) (data s Bills))\<rparr>)"

definition bulkDelete :: "runtime \<Rightarrow> tab \<Rightarrow> string list \<Rightarrow> bool \<Rightarrow> state \<Rightarrow> state" where
  "bulkDelete rt t checked ok s =
     (if checked \<noteq> [] \<and> ok
      then s\<lparr>data := (data s)(t :=
             filter (\<lambda>i. toStr rt (getProp i ''id'') \<notin> set checked) (data s t))\<rparr>
      else s)"

text \<open>A record survives the JSON copy unchanged when no field holds \<open>undefined\<close> or \<open>NaN\<close>.\<close>

definition jsonSafe :: "jsobj \<Rightarrow> bool" where
  "jsonSafe ob = (\<forall>k. ob k \<noteq> Some JUndefined \<and> ob k \<noteq> Some JNaN)"

section \<open>Marking a bill as paid\<close>

text \<open>
  \<open>billsActionMarkPaid\<close> is the handler behind the check-mark button of the bills table.
  \<open>find\<close> picks the first bill whose \<open>Bill_ID\<close> prints like the row id, the two
  assignments update that bill in place; \<open>now\<close> is \<open>DateTime.now()\<close>.
\<close>

definition billsActionMarkPaid :: "runtime \<Rightarrow> int \<Rightarrow> jsval \<Rightarrow> state \<Rightarrow> state" where
  "billsActionMarkPaid rt now ident s =
     (case findIndex (\<lambda>x. toStr rt (getProp x ''Bill_ID'') = toStr rt ident) (data s Bills) of
        None \<Rightarrow> s
      | Some ix \<Rightarrow>
          (let b = data s Bills ! ix;
               b' = b(''Status'' \<mapsto> JStr ''Paid'', ''Paid_Date'' \<mapsto> JStr (toISODate rt now))
           in s\<lparr>data := (data s)(Bills := (data s Bills)[ix := b'])\<rparr>))"

text \<open>
  What \<open>markBillPaid\<close> reads from outside the state: \<open>DateTime.now()\<close>, the two readings of
  \<open>Date.now()\<close>, and the answer to the question about next month.
\<close>

record clock =
  nowDT :: int
  nowMs :: real
  nowMs2 :: real
  confirmNext :: bool

text \<open>\<open>-Math.abs(Number(bill.Amount_Due ?? bill.amount ?? 0) || 0)\<close>.\<close>

definition paidAmount :: "runtime \<Rightarrow> jsobj \<Rightarrow> real" where
  "paidAmount rt bill =
     - \<bar>case toNumber rt (js_coalesce (getProp bill ''Amount_Due'')
                          (js_coalesce (getProp bill ''amount'') (JNum 0))) of
          None \<Rightarrow> 0 | Some r \<Rightarrow> r\<bar>"

text \<open>\<open>d.toISODate()\<close> of a possibly invalid \<open>DateTime\<close> (\<open>null\<close> when invalid).\<close>

definition isoDateOf :: "runtime \<Rightarrow> int option \<Rightarrow> jsval" where
  "isoDateOf rt d = (case d of None \<Rightarrow> JNull | Some t \<Rightarrow> JStr (toISODate rt t))"

definition billTransaction ::
    "runtime \<Rightarrow> jsobj \<Rightarrow> real \<Rightarrow> jsval \<Rightarrow> string \<Rightarrow> jsobj" where
  "billTransaction rt bill ident date status =
     [''id'' \<mapsto> JNum ident,
      ''date'' \<mapsto> date,
      ''description'' \<mapsto> js_or (getProp bill ''Bill_Name'') (getProp bill ''name''),
      ''category'' \<mapsto> JStr ''Bills'',
      ''amount'' \<mapsto> JNum (paidAmount rt bill),
      ''status'' \<mapsto> JStr status]"

definition isMonthly :: "runtime \<Rightarrow> jsobj \<Rightarrow> bool" where
  "isMonthly rt bill =
     (toLowerCase (toStr rt (js_or (getProp bill ''Frequency'')
                            (js_or (getProp bill ''recurrence'') (JStr '''')))) = ''monthly''
      \<and> toLowerCase (toStr rt (js_or (getProp bill ''Recurring'') (JStr ''false''))) = ''true'')"

definition markBillPaid :: "runtime \<Rightarrow> clock \<Rightarrow> jsval \<Rightarrow> state \<Rightarrow> state" where
  "markBillPaid rt ck ident s =
     (case findIndex (\<lambda>b. toStr rt (js_coalesce (getProp b ''Bill_ID'') (getProp b ''id''))
                            = toStr rt ident) (data s Bills) of
        None \<Rightarrow> s
      | Some ix \<Rightarrow>
          (let bill = data s Bills ! ix;
               monthStart = fromFormat rt (currentMonth s @ ''-01'');
               todayIso = toISODate rt (nowDT ck);
               tx = billTransaction rt bill (nowMs ck) (isoDateOf rt monthStart) ''Paid'';
               bill' = bill(''Status'' \<mapsto> JStr ''Paid'', ''Paid_Date'' \<mapsto> JStr todayIso);
               pending =
                 (if isMonthly rt bill' \<and> confirmNext ck
                  then [billTransaction rt bill' (nowMs2 ck + 1)
                          (isoDateOf rt (map_option (plusMonth rt) monthStart)) ''Pending'']
                  else [])
           in s\<lparr>data := (data s)
                  (Transactions := data s Transactions @ [tx] @ pending,
                   Bills := (data s Bills)[ix := bill'])\<rparr>))"

section \<open>Month scoping and the overdue flag\<close>

text \<open>
  \<open>d && d.isValid && d >= monthStart && d <= monthEnd\<close> for
  \<open>d = v ? DateTime.fromISO(String(v)) : null\<close>; comparing with an invalid \<open>monthStart\<close>
  is false.
\<close>

definition inMonthWindow :: "runtime \<Rightarrow> string \<Rightarrow> jsval \<Rightarrow> bool" where
  "inMonthWindow rt ym v =
     (case (if truthy v then fromISO rt (toStr rt v) else None) of
        None \<Rightarrow> False
      | Some d \<Rightarrow>
          (case fromFormat rt (ym @ ''-01'') of
             None \<Rightarrow> False
           | Some monthStart \<Rightarrow> monthStart \<le> d \<and> d \<le> endOfMonth rt monthStart))"

definition filterToCurrentMonth :: "runtime \<Rightarrow> state \<Rightarrow> tab \<Rightarrow> jsobj list \<Rightarrow> jsobj list" where
  "filterToCurrentMonth rt s t xs =
     (let ym = currentMonth s
      in if t = Bills
         then filter (\<lambda>item. inMonthWindow rt ym (getProp item ''Due_Date'')
                            \<or> inMonthWindow rt ym (getProp item ''Paid_Date'')) xs
         else if t = Income \<or> t = Transactions
         then filter (\<lambda>item. startsWith (toStr rt (js_or (getProp item ''date'') (JStr ''''))) ym) xs
         else xs)"

text \<open>
  \<open>isOverdue\<close> from \<open>renderBillsList\<close>; \<open>today\<close> is the value of \<open>DateTime.now()\<close> taken
  when the list is rendered.
\<close>

definition toDT :: "runtime \<Rightarrow> jsval \<Rightarrow> int option" where
  "toDT rt v = (if truthy v then fromISO rt (toStr rt v) else None)"

definition isOverdue :: "runtime \<Rightarrow> int \<Rightarrow> jsobj \<Rightarrow> bool" where
  "isOverdue rt today b =
     (let status = toLowerCase (toStr rt (js_or (getProp b ''Status'') (JStr '''')))
      in if status = ''overdue'' then True
         else if status = ''paid'' \<or> status = ''auto-paid'' then False
         else (case toDT rt (getProp b ''Due_Date'') of
                 None \<Rightarrow> False
               | Some due \<Rightarrow> due < today))"

section \<open>Dashboard figures\<close>

text \<open>
  \<open>updateDashboardKPIs\<close> computes four figures and writes them into the page; the model
  returns the figures.  \<open>inMonth\<close> is its local date test, \<open>numOrZero\<close> is
  \<open>Number(v || 0) || 0\<close>, and the two \<open>forEach\<close> loops thread their running totals.
  The budget utilization is an integer here and a value of the language in
  \<open>calculateTotals\<close> below, which is why the record leaves its type open.
\<close>

record 'u kpis =
  totalIncome :: real
  totalExpenses :: real
  netAmount :: real
  budgetUtilization :: 'u

definition inMonth :: "runtime \<Rightarrow> string \<Rightarrow> jsval \<Rightarrow> bool" where
  "inMonth rt ym d =
     (case fromISO rt (toStr rt d) of
        None \<Rightarrow> False
      | Some dt \<Rightarrow>
          (case fromFormat rt (ym @ ''-01'') of
             None \<Rightarrow> False
           | Some monthStart \<Rightarrow> monthStart \<le> dt \<and> dt \<le> endOfMonth rt monthStart))"

definition numOrZero :: "runtime \<Rightarrow> jsval \<Rightarrow> real" where
  "numOrZero rt v = (case toNumber rt (js_or v (JNum 0)) of None \<Rightarrow> 0 | Some r \<Rightarrow> r)"

fun incomeLoop :: "runtime \<Rightarrow> string \<Rightarrow> jsobj list \<Rightarrow> real \<Rightarrow> real" where
  "incomeLoop rt ym [] sumIncome = sumIncome"
| "incomeLoop rt ym (i # rest) sumIncome =
     (if \<not> inMonth rt ym (getProp i ''date'') then incomeLoop rt ym rest sumIncome
      else incomeLoop rt ym rest (sumIncome + numOrZero rt (getProp i ''amount'')))"

fun transactionLoop :: "runtime \<Rightarrow> string \<Rightarrow> jsobj list \<Rightarrow> real \<times> real \<Rightarrow> real \<times> real" where
  "transactionLoop rt ym [] totals = totals"
| "transactionLoop rt ym (t # rest) (sumIncome, sumExpenses) =
     (if \<not> inMonth rt ym (getProp t ''date'')
      then transactionLoop rt ym rest (sumIncome, sumExpenses)
      else (let v = numOrZero rt (getProp t ''amount'')
            in if v \<ge> 0 then transactionLoop rt ym rest (sumIncome + v, sumExpenses)
               else transactionLoop rt ym rest (sumIncome, sumExpenses + \<bar>v\<bar>)))"

text \<open>The \<open>reduce\<close> over the budgets: \<open>s + (isNaN(v) ? 0 : v)\<close> for \<open>v = Number(b.utilization || 0)\<close>.\<close>

definition utilizationOf :: "runtime \<Rightarrow> jsobj \<Rightarrow> real" where
  "utilizationOf rt b =
     (case toNumber rt (js_or (getProp b ''utilization'') (JNum 0)) of None \<Rightarrow> 0 | Some v \<Rightarrow> v)"

definition updateDashboardKPIs :: "runtime \<Rightarrow> state \<Rightarrow> int kpis" where
  "updateDashboardKPIs rt s =
     (let ym = currentMonth s;
          inc = incomeLoop rt ym (data s Income) 0;
          totals = transactionLoop rt ym (data s Transactions) (inc, 0);
          budgets = data s Budgets;
          util = (if budgets \<noteq> []
                  then round (foldl (\<lambda>sum b. sum + utilizationOf rt b) 0 budgets
                              / real (length budgets))
                  else 0)
      in \<lparr>totalIncome = fst totals, totalExpenses = snd totals,
          netAmount = fst totals - snd totals, budgetUtilization = util\<rparr>)"

text \<open>
  \<open>calculateTotals\<close> of \<open>utils/dataHelpers.js\<close> takes the collections and one option.  It
  reads a field with \<open>parseFloat(v || 0)\<close> (\<open>floatOf\<close>), adds \<open>isNaN(v) ? 0 : v\<close>
  (\<open>orZero\<close>), and returns the utilization as the text that \<open>toFixed(0)\<close> gives, or as
  the number \<open>0\<close> when there is no budget.  The application imports it and never calls it.
\<close>

definition floatOf :: "runtime \<Rightarrow> jsval \<Rightarrow> real option" where
  "floatOf rt v = parseFloat_of rt (toStr rt (js_or v (JNum 0)))"

definition orZero :: "real option \<Rightarrow> real" where
  "orZero v = (case v of None \<Rightarrow> 0 | Some x \<Rightarrow> x)"

definition calculateTotals :: "runtime \<Rightarrow> (tab \<Rightarrow> jsobj list) \<Rightarrow> bool \<Rightarrow> jsval kpis" where
  "calculateTotals rt d includePositiveTransactionsAsIncome =
     (let incomeFromIncome =
            foldl (\<lambda>sum item. sum + orZero (floatOf rt (getProp item ''amount''))) 0 (d Income);
          incomeFromTransactions =
            (if includePositiveTransactionsAsIncome
             then foldl (\<lambda>sum t. sum + orZero (floatOf rt (getProp t ''amount''))) 0
                    (filter (\<lambda>t. case floatOf rt (getProp t ''amount'') of
                                    None \<Rightarrow> False | Some v \<Rightarrow> v > 0) (d Transactions))
             else 0);
          income = incomeFromIncome + incomeFromTransactions;
          expenses =
            foldl (\<lambda>sum t. sum + orZero (map_option abs (floatOf rt (getProp t ''amount'')))) 0
              (filter (\<lambda>t. case floatOf rt (getProp t ''amount'') of
                              None \<Rightarrow> False | Some v \<Rightarrow> v < 0) (d Transactions));
          util = (if d Budgets \<noteq> []
                  then JStr (toFixed0 rt
                         (foldl (\<lambda>sum b. sum + orZero (floatOf rt (getProp b ''utilization'')))
                            0 (d Budgets) / real (length (d Budgets))))
                  else JNum 0)
      in \<lparr>totalIncome = income, totalExpenses = expenses,
          netAmount = income - expenses, budgetUtilization = util\<rparr>)"

section \<open>Table analytics\<close>








section \<open>Sorting\<close>

text \<open>
  The comparator of \<open>multiColumnSort\<close>: per key, a numeric difference when the left value
  is a number and \<open>localeCompare\<close> of the printed values otherwise; the first key whose result
  is not \<open>0\<close> decides, negated unless the direction is \<open>'asc'\<close>.  \<open>None\<close> is \<open>NaN\<close>.
\<close>

fun isNumber :: "jsval \<Rightarrow> bool" where
  "isNumber (JNum r) = True"
| "isNumber JNaN = True"
| "isNumber v = False"

definition keyCmp :: "runtime \<Rightarrow> string \<Rightarrow> jsobj \<Rightarrow> jsobj \<Rightarrow> real option" where
  "keyCmp rt k a b =
     (if isNumber (getProp a k)
      then (case (toNumber rt (getProp a k), toNumber rt (getProp b k)) of
              (Some x, Some y) \<Rightarrow> Some (x - y) | _ \<Rightarrow> None)
      else Some (real_of_int (localeCompare rt (toStr rt (getProp a k)) (toStr rt (getProp b k)))))"

fun comparator :: "runtime \<Rightarrow> (string \<times> string) list \<Rightarrow> jsobj \<Rightarrow> jsobj \<Rightarrow> real option" where
  "comparator rt [] a b = Some 0"
| "comparator rt ((k, dir) # keys) a b =
     (let cmp = keyCmp rt k a b
      in if cmp \<noteq> Some 0 then (if dir = ''asc'' then cmp else map_option uminus cmp)
         else comparator rt keys a b)"

text \<open>
  \<open>Array.prototype.sort\<close> is stable and treats a \<open>NaN\<close> result as \<open>0\<close>; with a consistent
  comparator its result is that of a stable insertion sort, in which an element goes in
  front of the first one it does not compare greater than.
\<close>

definition notAfter :: "real option \<Rightarrow> bool" where
  "notAfter c = (case c of None \<Rightarrow> True | Some r \<Rightarrow> r \<le> 0)"

fun insertSorted :: "('a \<Rightarrow> 'a \<Rightarrow> real option) \<Rightarrow> 'a \<Rightarrow> 'a list \<Rightarrow> 'a list" where
  "insertSorted cmp x [] = [x]"
| "insertSorted cmp x (y # ys) =
     (if notAfter (cmp x y) then x # y # ys else y # insertSorted cmp x ys)"

definition stableSort :: "('a \<Rightarrow> 'a \<Rightarrow> real option) \<Rightarrow> 'a list \<Rightarrow> 'a list" where
  "stableSort cmp xs = foldr (insertSorted cmp) xs []"

definition multiColumnSort :: "runtime \<Rightarrow> jsobj list \<Rightarrow> (string \<times> string) list \<Rightarrow> jsobj list" where
  "multiColumnSort rt xs sortKeys = stableSort (comparator rt sortKeys) xs"

section \<open>Reading and writing CSV\<close>

text \<open>\<open>text.split(/\r?\n/)\<close>: split at line feeds, dropping a carriage return in front of one.\<close>

definition stripCR :: "string \<Rightarrow> string" where
  "stripCR l = (if l \<noteq> [] \<and> last l = CHR 0x0D then butlast l else l)"

definition splitLines :: "string \<Rightarrow> string list" where
  "splitLines s = (let ps = splitOn CHR 0x0A s in map stripCR (butlast ps) @ [last ps])"

text \<open>\<open>/amount|utilization/i.test(header)\<close>.\<close>

definition amountLike :: "string \<Rightarrow> bool" where
  "amountLike h =
     (js_includes (toLowerCase h) ''amount'' \<or> js_includes (toLowerCase h) ''utilization'')"

text \<open>
  The body of \<open>headers.forEach\<close>: the cell at \<open>index\<close>, trimmed, or the empty string when the
  row is too short; turned into a number in an amount-like column when it is not empty
  and \<open>Number\<close> accepts it.
\<close>

definition rawAt :: "string list \<Rightarrow> nat \<Rightarrow> string" where
  "rawAt vals index = (if index < length vals then trim (vals ! index) else [])"

definition cellValue :: "runtime \<Rightarrow> string \<Rightarrow> string \<Rightarrow> jsval" where
  "cellValue rt header raw =
     (if amountLike header \<and> raw \<noteq> []
      then (case Number_of rt raw of None \<Rightarrow> JStr raw | Some num \<Rightarrow> JNum num)
      else JStr raw)"

fun fillRow :: "runtime \<Rightarrow> string list \<Rightarrow> nat \<Rightarrow> string list \<Rightarrow> jsobj \<Rightarrow> jsobj" where
  "fillRow rt vals index [] ob = ob"
| "fillRow rt vals index (header # headers) ob =
     fillRow rt vals (Suc index) headers (ob(header \<mapsto> cellValue rt header (rawAt vals index)))"

definition parseLine :: "runtime \<Rightarrow> string list \<Rightarrow> string \<Rightarrow> jsobj" where
  "parseLine rt headers line = fillRow rt (splitOn CHR '','' line) 0 headers Map.empty"

text \<open>
  \<open>parseCSV\<close> of \<open>utils/dataHelpers.js\<close>.  The byte-order mark that the header clean-up
  removes is not an 8-bit character, so that step has nothing to do here.
\<close>

definition csvLines :: "string \<Rightarrow> string list" where
  "csvLines text = filter (\<lambda>l. trim l \<noteq> []) (splitLines (trim text))"

definition parseCSV :: "runtime \<Rightarrow> string \<Rightarrow> jsobj list" where
  "parseCSV rt text =
     (if text = [] then []
      else (case csvLines text of
              [] \<Rightarrow> []
            | l0 # rest \<Rightarrow>
                (let headers = map trim (splitOn CHR '','' l0)
                 in map (parseLine rt headers) rest)))"

text \<open>
  The text that \<open>saveBillsToCSV\<close> writes to \<open>bills.csv\<close>: the fixed header line, then one
  line per bill with the eleven fields joined by commas, line feeds in the notes replaced
  by spaces.
\<close>

definition billsColumns :: "string list" where
  "billsColumns = [''Bill_ID'', ''Bill_Name'', ''Category'', ''Amount_Due'', ''Due_Date'',
     ''Paid_Date'', ''Status'', ''Recurring'', ''Frequency'', ''Payment_Method'', ''Notes'']"

definition fieldText :: "runtime \<Rightarrow> jsobj \<Rightarrow> string \<Rightarrow> string" where
  "fieldText rt b k = toStr rt (js_coalesce (getProp b k) (JStr ''''))"

definition billLine :: "runtime \<Rightarrow> jsobj \<Rightarrow> string" where
  "billLine rt b =
     joinWith CHR '',''
       (map (fieldText rt b) (butlast billsColumns)
        @ [map (\<lambda>c. if c = CHR 0x0A then CHR '' '' else c) (fieldText rt b ''Notes'')])"

definition saveBillsToCSV :: "runtime \<Rightarrow> jsobj list \<Rightarrow> string" where
  "saveBillsToCSV rt bills =
     ''Bill_ID,Bill_Name,Category,Amount_Due,Due_Date,Paid_Date,Status,Recurring,Frequency,Payment_Method,Notes''
     @ [CHR 0x0A] @ concat (map (\<lambda>b. billLine rt b @ [CHR 0x0A]) bills)"

section \<open>Notions used in the statements\<close>

text \<open>
  A date value falls within the selected month when it is present, parses to a valid date
  and lies in the closed interval from the start of the month to its end.
\<close>

definition withinSelectedMonth :: "runtime \<Rightarrow> string \<Rightarrow> jsval \<Rightarrow> bool" where
  "withinSelectedMonth rt ym v =
     (\<exists>monthStart d. fromFormat rt (ym @ ''-01'') = Some monthStart \<and> truthy v \<and>
        fromISO rt (toStr rt v) = Some d \<and> d \<in> {monthStart .. endOfMonth rt monthStart})"

text \<open>
  A record is dated in the selected month when the text of its date is a valid date in the
  closed interval from the start of the month to its end.
\<close>

definition datedInMonth :: "runtime \<Rightarrow> string \<Rightarrow> jsobj \<Rightarrow> bool" where
  "datedInMonth rt ym r \<longleftrightarrow>
     (\<exists>monthStart d. fromFormat rt (ym @ ''-01'') = Some monthStart \<and>
        fromISO rt (toStr rt (getProp r ''date'')) = Some d \<and>
        d \<in> {monthStart .. endOfMonth rt monthStart})"

text \<open>
  The amount a stored value stands for.  A number stands for itself and a text for the
  number that \<open>Number\<close> reads it as; \<open>true\<close> and \<open>false\<close> stand for \<open>1\<close> and \<open>0\<close>, as in
  every numeric coercion of the language.  A missing value (\<open>undefined\<close>, \<open>null\<close>, the
  empty text) and a value that is not numeric (\<open>NaN\<close>, a text that \<open>Number\<close> does not read
  as a number) stand for \<open>0\<close>.
\<close>

fun amountValue :: "runtime \<Rightarrow> jsval \<Rightarrow> real" where
  "amountValue rt (JNum r) = r"
| "amountValue rt (JStr t) =
     (if t = [] then 0 else case Number_of rt t of None \<Rightarrow> 0 | Some r \<Rightarrow> r)"
| "amountValue rt (JBool b) = (if b then 1 else 0)"
| "amountValue rt JUndefined = 0"
| "amountValue rt JNull = 0"
| "amountValue rt JNaN = 0"

text \<open>The date of an income or transaction record as a string, empty when there is none.\<close>

definition dateString :: "runtime \<Rightarrow> jsobj \<Rightarrow> string" where
  "dateString rt r = toStr rt (js_or (getProp r ''date'') (JStr ''''))"

text \<open>The number a record holds under a key (\<open>0\<close> when the value is not a finite number).\<close>

definition numberAt :: "string \<Rightarrow> jsobj \<Rightarrow> real" where
  "numberAt k r = (case getProp r k of JNum v \<Rightarrow> v | _ \<Rightarrow> 0)"

text \<open>
  A text is clean when it has no white space at either end, no comma and no line feed;
  a number prints back when its printed form is a non-empty clean text that \<open>Number\<close>
  reads as the same number.
\<close>

definition cleanText :: "string \<Rightarrow> bool" where
  "cleanText s \<longleftrightarrow> trim s = s \<and> CHR '','' \<notin> set s \<and> CHR 0x0A \<notin> set s"

definition printsBack :: "runtime \<Rightarrow> real \<Rightarrow> bool" where
  "printsBack rt n \<longleftrightarrow>
     String_of rt n \<noteq> [] \<and> cleanText (String_of rt n) \<and>
     Number_of rt (String_of rt n) = Some n"

text \<open>The column names \<open>parseCSV\<close> takes from the first non-blank line of a text.\<close>

definition csvHeaders :: "string \<Rightarrow> string list" where
  "csvHeaders text =
     (case csvLines text of [] \<Rightarrow> [] | l0 # rest \<Rightarrow> map trim (splitOn CHR '','' l0))"

text \<open>
  A line as \<open>saveBillsToCSV\<close> writes it: not empty, no white space at either end, no line
  feed inside.
\<close>

definition solidLine :: "string \<Rightarrow> bool" where
  "solidLine l \<longleftrightarrow> l \<noteq> [] \<and> \<not> isSpace (hd l) \<and> \<not> isSpace (last l) \<and> CHR 0x0A \<notin> set l"

text \<open>
  A value reparses under a column when printing it gives a clean text from which the cell
  conversion of that column recovers the value; a record is saved faithfully when its keys
  are the bills columns and every value reparses.
\<close>

definition reparses :: "runtime \<Rightarrow> string \<Rightarrow> jsval \<Rightarrow> bool" where
  "reparses rt k v \<longleftrightarrow>
     \<not> nullish v \<and> cleanText (toStr rt v) \<and> cellValue rt k (toStr rt v) = v"

definition savedRecord :: "runtime \<Rightarrow> jsobj \<Rightarrow> bool" where
  "savedRecord rt ob \<longleftrightarrow>
     dom ob = set billsColumns \<and> list_all (\<lambda>k. reparses rt k (getProp ob k)) billsColumns"

section \<open>Scenarios\<close>

text \<open>Two income rows, one dated in January and one in February 2024.\<close>

definition incomeState :: state where
  "incomeState = \<lparr>data = (\<lambda>t. [])(Income :=
       [[''id'' \<mapsto> JStr ''1'', ''source'' \<mapsto> JStr ''Salary'', ''amount'' \<mapsto> JNum 3000,
         ''date'' \<mapsto> JStr ''2024-01-05''],
        [''id'' \<mapsto> JStr ''2'', ''source'' \<mapsto> JStr ''Bonus'', ''amount'' \<mapsto> JNum 250,
         ''date'' \<mapsto> JStr ''2024-02-10'']]),
     currentMonth = ''2024-01'', undoStack = [], alerts = []\<rparr>"

text \<open>
  An income row whose amount became \<open>NaN\<close>, as grid editing leaves it after
  \<open>Number(newVal)\<close> on a text that is not a number.
\<close>

definition nanState :: state where
  "nanState = \<lparr>data = (\<lambda>t. [])(Income := [[''id'' \<mapsto> JStr ''1'', ''amount'' \<mapsto> JNaN]]),
     currentMonth = ''2024-01'', undoStack = [], alerts = []\<rparr>"

text \<open>A bill as the add-bill form stores it (keyed by \<open>id\<close>) and an income row.\<close>

definition legacyBillsState :: state where
  "legacyBillsState = \<lparr>data = (\<lambda>t. [])
       (Bills := [[''id'' \<mapsto> JStr ''7'', ''name'' \<mapsto> JStr ''Rent'']],
        Income := [[''id'' \<mapsto> JStr ''1'', ''source'' \<mapsto> JStr ''Salary'']]),
     currentMonth = ''2024-01'', undoStack = [], alerts = []\<rparr>"

text \<open>
  The rent bill of the specification's scenarios, a second bill and one transaction, with
  January 2024 selected; and a clock reading 2024-01-15, 10:00 UTC.
\<close>

definition rentState :: state where
  "rentState = \<lparr>data = (\<lambda>t. [])
       (Bills :=
          [[''Bill_ID'' \<mapsto> JStr ''1'', ''Bill_Name'' \<mapsto> JStr ''Rent'',
            ''Amount_Due'' \<mapsto> JNum 1200, ''Due_Date'' \<mapsto> JStr ''2024-01-01'',
            ''Status'' \<mapsto> JStr ''Pending''],
           [''Bill_ID'' \<mapsto> JStr ''2'', ''Bill_Name'' \<mapsto> JStr ''Internet'',
            ''Amount_Due'' \<mapsto> JNum 60, ''Due_Date'' \<mapsto> JStr ''2024-01-20'',
            ''Status'' \<mapsto> JStr ''Pending'']],
        Transactions :=
          [[''id'' \<mapsto> JStr ''t1'', ''date'' \<mapsto> JStr ''2024-01-03'',
            ''description'' \<mapsto> JStr ''Coffee'', ''category'' \<mapsto> JStr ''Food'',
            ''amount'' \<mapsto> JNum (-4.5), ''status'' \<mapsto> JStr ''Cleared'']]),
     currentMonth = ''2024-01'', undoStack = [], alerts = []\<rparr>"

definition midJanuary :: clock where
  "midJanuary = \<lparr>nowDT = 1705312800000, nowMs = 1705312800000, nowMs2 = 1705312800005,
     confirmNext = False\<rparr>"

text \<open>A pending bill that falls due on 2024-01-15.\<close>

definition dueTodayBill :: jsobj where
  "dueTodayBill = [''Bill_ID'' \<mapsto> JStr ''3'', ''Bill_Name'' \<mapsto> JStr ''Water'',
     ''Amount_Due'' \<mapsto> JNum 40, ''Due_Date'' \<mapsto> JStr ''2024-01-15'',
     ''Status'' \<mapsto> JStr ''Pending'']"

text \<open>
  A store for the dashboard: two income rows (one in January, one in February), three
  January transactions (one with an amount that is not a number) and two budgets.  The
  salary and the second budget hold their figures as text, as the add forms store them.
\<close>

definition dashboardState :: state where
  "dashboardState = \<lparr>data = (\<lambda>t. [])
       (Income :=
          [[''id'' \<mapsto> JStr ''1'', ''source'' \<mapsto> JStr ''Salary'', ''amount'' \<mapsto> JStr ''3000'',
            ''date'' \<mapsto> JStr ''2024-01-15''],
           [''id'' \<mapsto> JStr ''2'', ''source'' \<mapsto> JStr ''Bonus'', ''amount'' \<mapsto> JNum 250,
            ''date'' \<mapsto> JStr ''2024-02-01'']],
        Transactions :=
          [[''id'' \<mapsto> JStr ''t1'', ''date'' \<mapsto> JStr ''2024-01-01'', ''amount'' \<mapsto> JNum (- 1200)],
           [''id'' \<mapsto> JStr ''t2'', ''date'' \<mapsto> JStr ''2024-01-15'', ''amount'' \<mapsto> JNum 100],
           [''id'' \<mapsto> JStr ''t3'', ''date'' \<mapsto> JStr ''2024-01-15'', ''amount'' \<mapsto> JStr ''n/a'']],
        Budgets :=
          [[''id'' \<mapsto> JStr ''b1'', ''name'' \<mapsto> JStr ''Food'', ''utilization'' \<mapsto> JNum 40],
           [''id'' \<mapsto> JStr ''b2'', ''name'' \<mapsto> JStr ''Fun'', ''utilization'' \<mapsto> JStr ''45'']]),
     currentMonth = ''2024-01'', undoStack = [], alerts = []\<rparr>"

text \<open>The same store without the February income: every record is dated in January.\<close>

definition januaryState :: state where
  "januaryState = dashboardState\<lparr>data := (data dashboardState)
       (Income := take 1 (data dashboardState Income))\<rparr>"

text \<open>Two rows with the same amount.\<close>

definition tiedRows :: "jsobj list" where
  "tiedRows = [[''id'' \<mapsto> JStr ''1'', ''amount'' \<mapsto> JNum 5],
               [''id'' \<mapsto> JStr ''2'', ''amount'' \<mapsto> JNum 5]]"

text \<open>
  A bills file with the columns in another order than the writer's, spaces around some
  cells, a decimal amount and Windows line ends; and a file in the older layout that the
  add-bill form still produces.
\<close>

definition billsText :: string where
  "billsText =
     ''Bill_Name,Bill_ID,Category,Amount_Due,Due_Date,Paid_Date,Status,Recurring,Frequency,Payment_Method,Notes''
     @ [CHR 0x0D, CHR 0x0A]
     @ ''Rent, 1 ,Housing,1200,2024-01-01,,Pending,true,Monthly,Bank,first of the month''
     @ [CHR 0x0D, CHR 0x0A]
     @ ''Power,2,Utilities,61.50,2024-01-20,,Pending,false,,Card,''
     @ [CHR 0x0D, CHR 0x0A]"

definition legacyText :: string where
  "legacyText = ''id,name,amount'' @ [CHR 0x0A] @ ''7,Rent,1200'' @ [CHR 0x0A]"

section \<open>Properties of the undo stack\<close>

lemma jsonClone_safe: "jsonSafe ob \<Longrightarrow> jsonClone ob = ob"
proof (rule ext)
  fix k
  assume safe: "jsonSafe ob"
  show "jsonClone ob k = ob k"
  proof (cases "ob k")
    case None
    then show ?thesis by (simp add: jsonClone_def)
  next
    case (Some v)
    with safe have "v \<noteq> JUndefined" "v \<noteq> JNaN"
      by (auto simp: jsonSafe_def)
    then have "jsonValue v = Some v" by (cases v) simp_all
    with Some show ?thesis by (simp add: jsonClone_def)
  qed
qed

lemma map_jsonClone_safe: "list_all jsonSafe xs \<Longrightarrow> map jsonClone xs = xs"
  by (induction xs) (simp_all add: jsonClone_safe)

lemma pushUndo_data [simp]: "data (pushUndo t s) = data s"
  by (simp add: pushUndo_def Let_def)

lemma pushUndo_nonempty: "undoStack (pushUndo t s) \<noteq> []"
  by (cases "undoStack s") (simp_all add: pushUndo_def Let_def)

lemma pushUndo_last: "last (undoStack (pushUndo t s)) = (t, map jsonClone (data s t))"
  by (cases "undoStack s") (simp_all add: pushUndo_def Let_def)

text \<open>The stack never grows beyond twenty snapshots, and the oldest one goes first.\<close>

lemma pushUndo_length:
  "length (undoStack s) \<le> 20 \<Longrightarrow> length (undoStack (pushUndo t s)) \<le> 20"
  by (simp add: pushUndo_def Let_def)

lemma pushUndo_evicts_oldest:
  "length (undoStack s) = 20 \<Longrightarrow>
   undoStack (pushUndo t s) = tl (undoStack s) @ [(t, map jsonClone (data s t))]"
  by (cases "undoStack s") (simp_all add: pushUndo_def Let_def)

lemma deleteRow_undoStack: "undoStack (deleteRow rt t ident s) = undoStack (pushUndo t s)"
  by (simp add: deleteRow_def Let_def split: option.split)

lemma deleteRow_data_other: "t' \<noteq> t \<Longrightarrow> data (deleteRow rt t ident s) t' = data s t'"
  by (simp add: deleteRow_def Let_def split: option.split)

lemma undo_after_deleteRow:
  "data (undoLastAction (deleteRow rt t ident s)) = (data s)(t := map jsonClone (data s t))"
proof -
  let ?d = "deleteRow rt t ident s"
  have ne: "undoStack ?d \<noteq> []" by (simp add: deleteRow_undoStack pushUndo_nonempty)
  have l: "last (undoStack ?d) = (t, map jsonClone (data s t))"
    by (simp add: deleteRow_undoStack pushUndo_last)
  have "data (undoLastAction ?d) = (data ?d)(t := map jsonClone (data s t))"
    using ne l by (simp add: undoLastAction_def Let_def)
  also have "\<dots> = (data s)(t := map jsonClone (data s t))"
    by (rule ext) (simp add: deleteRow_data_other)
  finally show ?thesis .
qed

text \<open>
  After a restore \<open>undoLastAction\<close> reports success only on the tabs whose writer exists.
\<close>

lemma undoLastAction_alert:
  "undoStack s \<noteq> [] \<Longrightarrow>
   alerts (undoLastAction s) =
     (if writerDefined (fst (last (undoStack s))) then alerts s @ [''Undo complete!'']
      else alerts s)"
  by (simp add: undoLastAction_def Let_def)

text \<open>
  C3, amended.  When every record of the collection holds only values that JSON can carry
  (no \<open>undefined\<close>, no \<open>NaN\<close>), deleting a row by id and undoing at once gives back every
  collection exactly as it was.  Undoing on an empty stack changes no collection, leaves
  the stack empty and tells the user \<open>Nothing to undo.\<close>
\<close>

theorem delete_then_undo_restores:
  "(list_all jsonSafe (data s t) \<longrightarrow>
      data (undoLastAction (deleteRow rt t ident s)) = data s) \<and>
   (undoStack s = [] \<longrightarrow>
      data (undoLastAction s) = data s \<and> undoStack (undoLastAction s) = [] \<and>
      alerts (undoLastAction s) = alerts s @ [''Nothing to undo.''])"
proof (intro conjI impI)
  assume "list_all jsonSafe (data s t)"
  then have "map jsonClone (data s t) = data s t" by (rule map_jsonClone_safe)
  then show "data (undoLastAction (deleteRow rt t ident s)) = data s"
    by (simp add: undo_after_deleteRow)
next
  assume "undoStack s = []"
  then show "data (undoLastAction s) = data s" "undoStack (undoLastAction s) = []"
    "alerts (undoLastAction s) = alerts s @ [''Nothing to undo.'']"
    by (simp_all add: undoLastAction_def)
qed

theorem delete_then_undo_restores_witness:
  "list_all jsonSafe (data incomeState Income) \<and>
   data (deleteRow refRuntime Income (JStr ''1'') incomeState) Income
     = [[''id'' \<mapsto> JStr ''2'', ''source'' \<mapsto> JStr ''Bonus'', ''amount'' \<mapsto> JNum 250,
         ''date'' \<mapsto> JStr ''2024-02-10'']] \<and>
   data (undoLastAction (deleteRow refRuntime Income (JStr ''1'') incomeState))
     = data incomeState \<and>
   undoStack incomeState = [] \<and>
   alerts (undoLastAction incomeState) = [''Nothing to undo.'']"
proof -
  have safe: "list_all jsonSafe (data incomeState Income)"
    by (simp add: incomeState_def jsonSafe_def)
  have del: "data (deleteRow refRuntime Income (JStr ''1'') incomeState) Income
     = [[''id'' \<mapsto> JStr ''2'', ''source'' \<mapsto> JStr ''Bonus'', ''amount'' \<mapsto> JNum 250,
         ''date'' \<mapsto> JStr ''2024-02-10'']]"
    by (simp add: deleteRow_def incomeState_def getProp_def splice1_def)
  have emp: "undoStack incomeState = []" "alerts incomeState = []"
    by (simp_all add: incomeState_def)
  from delete_then_undo_restores [of incomeState Income refRuntime "JStr ''1''"] safe del emp
  show ?thesis by simp
qed

text \<open>
  The claim as written fails on a collection that holds a \<open>NaN\<close>: the snapshot stores
  \<open>null\<close> in its place, and that is what undo brings back.
\<close>

theorem delete_then_undo_nan_counterexample:
  "data (undoLastAction (deleteRow refRuntime Income (JStr ''1'') nanState)) Income
     = [[''id'' \<mapsto> JStr ''1'', ''amount'' \<mapsto> JNull]] \<and>
   data (undoLastAction (deleteRow refRuntime Income (JStr ''1'') nanState)) Income
     \<noteq> data nanState Income"
proof -
  have a: "jsonClone [''id'' \<mapsto> JStr ''1'', ''amount'' \<mapsto> JNaN]
             = [''id'' \<mapsto> JStr ''1'', ''amount'' \<mapsto> JNull]"
    by (rule ext) (simp add: jsonClone_def)
  have b: "[''id'' \<mapsto> JStr ''1'', ''amount'' \<mapsto> JNull]
             \<noteq> [''id'' \<mapsto> JStr ''1'', ''amount'' \<mapsto> JNaN]"
    by (simp add: fun_eq_iff)
  show ?thesis
    using a b by (simp add: undo_after_deleteRow nanState_def)
qed

text \<open>
  C4.  \<open>deleteRow\<close> pushes a snapshot before it removes the row, but \<open>deleteBill\<close> and the
  bulk-delete handler remove rows and leave the undo stack as it was: here it stays
  empty, so the deletion cannot be undone.
\<close>

theorem delete_without_snapshot:
  "data (deleteBill refRuntime (JStr ''7'') True legacyBillsState) Bills = [] \<and>
   undoStack (deleteBill refRuntime (JStr ''7'') True legacyBillsState) = [] \<and>
   data (bulkDelete refRuntime Income [''1''] True legacyBillsState) Income = [] \<and>
   undoStack (bulkDelete refRuntime Income [''1''] True legacyBillsState) = [] \<and>
   undoStack (deleteRow refRuntime Income (JStr ''1'') legacyBillsState)
     = [(Income, [[''id'' \<mapsto> JStr ''1'', ''source'' \<mapsto> JStr ''Salary'']])]"
proof -
  have c: "jsonClone [''id'' \<mapsto> JStr ''1'', ''source'' \<mapsto> JStr ''Salary'']
             = [''id'' \<mapsto> JStr ''1'', ''source'' \<mapsto> JStr ''Salary'']"
    by (rule ext) (simp add: jsonClone_def)
  show ?thesis
    using c
    by (simp add: deleteBill_def bulkDelete_def legacyBillsState_def getProp_def
        deleteRow_undoStack pushUndo_def)
qed

section \<open>The reference runtime on the scenario dates\<close>

lemma ref_date_jan01: "refDate ''2024-01-01'' = Some 1704067200000"
  by code_simp

lemma ref_date_jan15: "refDate ''2024-01-15'' = Some 1705276800000"
  by code_simp

lemma ref_date_feb01: "refDate ''2024-02-01'' = Some 1706745600000"
  by code_simp

lemma ref_end_jan: "refEndOfMonth 1704067200000 = 1706745599999"
  by code_simp

lemma ref_end_feb: "refEndOfMonth 1706745600000 = 1709251199999"
  by code_simp

lemma ref_iso_now: "refISODate 1705312800000 = ''2024-01-15''"
  by code_simp

lemma ref_iso_jan01: "refISODate 1704067200000 = ''2024-01-01''"
  by code_simp

lemma lower_pending: "toLowerCase ''Pending'' = ''pending''"
  by (simp add: toLowerCase_def lowerChar_def)

section \<open>Properties of marking a bill as paid\<close>

lemma findIndex_Some:
  "findIndex p xs = Some i \<Longrightarrow> i < length xs \<and> p (xs ! i) \<and> (\<forall>j<i. \<not> p (xs ! j))"
proof (induction xs arbitrary: i)
  case Nil
  then show ?case by simp
next
  case (Cons x xs)
  show ?case
  proof (cases "p x")
    case True
    with Cons.prems show ?thesis by simp
  next
    case False
    with Cons.prems obtain i' where i': "findIndex p xs = Some i'" "i = Suc i'"
      by auto
    from Cons.IH [OF i'(1)] False i'(2) show ?thesis
      by (auto simp: nth_Cons split: nat.split)
  qed
qed

text \<open>
  C10.  The handler behind the mark-paid button changes nothing but the \<open>Status\<close> and
  \<open>Paid_Date\<close> of the first bill whose \<open>Bill_ID\<close> matches: every other collection (the
  transactions among them), the undo stack, the selected month and the alerts stay as they
  are, no bill is added or removed, every other field of every bill keeps its value, and
  every other bill is untouched.  The matching bill ends with status \<open>Paid\<close> and the current
  date as its paid date.
\<close>

theorem billsActionMarkPaid_frame:
  assumes "s' = billsActionMarkPaid rt now ident s"
  shows "(\<forall>t. t \<noteq> Bills \<longrightarrow> data s' t = data s t) \<and>
     undoStack s' = undoStack s \<and> currentMonth s' = currentMonth s \<and> alerts s' = alerts s \<and>
     length (data s' Bills) = length (data s Bills) \<and>
     (\<forall>j k. j < length (data s Bills) \<longrightarrow> k \<noteq> ''Status'' \<longrightarrow> k \<noteq> ''Paid_Date'' \<longrightarrow>
        (data s' Bills ! j) k = (data s Bills ! j) k) \<and>
     (\<forall>j. j < length (data s Bills) \<longrightarrow>
        findIndex (\<lambda>x. toStr rt (getProp x ''Bill_ID'') = toStr rt ident) (data s Bills) \<noteq> Some j \<longrightarrow>
        data s' Bills ! j = data s Bills ! j) \<and>
     (\<forall>j. findIndex (\<lambda>x. toStr rt (getProp x ''Bill_ID'') = toStr rt ident) (data s Bills) = Some j \<longrightarrow>
        (data s' Bills ! j) ''Status'' = Some (JStr ''Paid'') \<and>
        (data s' Bills ! j) ''Paid_Date'' = Some (JStr (toISODate rt now)))"
proof (cases "findIndex (\<lambda>x. toStr rt (getProp x ''Bill_ID'') = toStr rt ident) (data s Bills)")
  case None
  with assms have "s' = s" by (simp add: billsActionMarkPaid_def)
  with None show ?thesis by simp
next
  case (Some ix)
  then have ix: "ix < length (data s Bills)" by (auto dest: findIndex_Some)
  from Some assms have s': "s' = s\<lparr>data := (data s)(Bills := (data s Bills)
      [ix := (data s Bills ! ix)(''Status'' \<mapsto> JStr ''Paid'',
                                 ''Paid_Date'' \<mapsto> JStr (toISODate rt now))])\<rparr>"
    by (simp add: billsActionMarkPaid_def Let_def)
  show ?thesis
    using ix Some by (auto simp: s' nth_list_update)
qed

theorem billsActionMarkPaid_frame_witness:
  "data (billsActionMarkPaid refRuntime 1705312800000 (JStr ''1'') rentState) Transactions
     = data rentState Transactions \<and>
   data (billsActionMarkPaid refRuntime 1705312800000 (JStr ''1'') rentState) Bills ! 1
     = data rentState Bills ! 1 \<and>
   (data (billsActionMarkPaid refRuntime 1705312800000 (JStr ''1'') rentState) Bills ! 0)
       ''Amount_Due'' = Some (JNum 1200) \<and>
   (data (billsActionMarkPaid refRuntime 1705312800000 (JStr ''1'') rentState) Bills ! 0)
       ''Status'' = Some (JStr ''Paid'') \<and>
   (data (billsActionMarkPaid refRuntime 1705312800000 (JStr ''1'') rentState) Bills ! 0)
       ''Paid_Date'' = Some (JStr ''2024-01-15'')"
proof -
  let ?s' = "billsActionMarkPaid refRuntime 1705312800000 (JStr ''1'') rentState"
  have ix: "findIndex (\<lambda>x. toStr refRuntime (getProp x ''Bill_ID'') = toStr refRuntime (JStr ''1''))
              (data rentState Bills) = Some 0"
    by (simp add: rentState_def getProp_def)
  have len: "length (data rentState Bills) = 2"
    by (simp add: rentState_def)
  have iso: "toISODate refRuntime 1705312800000 = ''2024-01-15''"
    by (simp add: refRuntime_def ref_iso_now)
  have amt: "(data rentState Bills ! 0) ''Amount_Due'' = Some (JNum 1200)"
    by (simp add: rentState_def)
  from billsActionMarkPaid_frame [of ?s' refRuntime 1705312800000 "JStr ''1''" rentState, OF refl]
  show ?thesis
    using ix len iso amt by simp
qed

text \<open>
  What \<open>markBillPaid\<close> does when the bill exists and the selected month is valid: the bill
  gets status \<open>Paid\<close> and today's date, and the transactions gain, right after the existing
  ones, a record of category \<open>Bills\<close> dated at the start of the month whose amount is minus
  the absolute value of the amount due.
\<close>

lemma markBillPaid_effect:
  assumes found: "findIndex (\<lambda>b. toStr rt (js_coalesce (getProp b ''Bill_ID'') (getProp b ''id''))
                       = toStr rt ident) (data s Bills) = Some ix"
    and month: "fromFormat rt (currentMonth s @ ''-01'') = Some monthStart"
  shows "\<exists>tx pending.
     data (markBillPaid rt ck ident s) Transactions = data s Transactions @ tx # pending \<and>
     tx ''category'' = Some (JStr ''Bills'') \<and>
     tx ''date'' = Some (JStr (toISODate rt monthStart)) \<and>
     tx ''amount'' = Some (JNum (paidAmount rt (data s Bills ! ix))) \<and>
     data (markBillPaid rt ck ident s) Bills =
       (data s Bills)[ix := (data s Bills ! ix)(''Status'' \<mapsto> JStr ''Paid'',
          ''Paid_Date'' \<mapsto> JStr (toISODate rt (nowDT ck)))]"
  using found month
  by (simp add: markBillPaid_def Let_def billTransaction_def isoDateOf_def)

lemma paidAmount_number:
  "getProp bill ''Amount_Due'' = JNum a \<Longrightarrow> paidAmount rt bill = - \<bar>a\<bar>"
  by (simp add: paidAmount_def js_coalesce_def)

text \<open>
  C7.  On the rent bill of the scenario, with January 2024 selected and the clock at
  2024-01-15, the handler wired to the mark-paid button sets status and paid date but
  leaves the transactions as they were; \<open>markBillPaid\<close>, which nothing calls, is the
  function that also appends the transaction of \<open>-1200\<close> in category \<open>Bills\<close> dated
  2024-01-01.
\<close>

theorem mark_paid_button_adds_no_transaction:
  "data (billsActionMarkPaid refRuntime 1705312800000 (JStr ''1'') rentState) Bills ! 0
     = [''Bill_ID'' \<mapsto> JStr ''1'', ''Bill_Name'' \<mapsto> JStr ''Rent'', ''Amount_Due'' \<mapsto> JNum 1200,
        ''Due_Date'' \<mapsto> JStr ''2024-01-01'', ''Status'' \<mapsto> JStr ''Paid'',
        ''Paid_Date'' \<mapsto> JStr ''2024-01-15''] \<and>
   data (billsActionMarkPaid refRuntime 1705312800000 (JStr ''1'') rentState) Transactions
     = data rentState Transactions \<and>
   length (data rentState Transactions) = 1 \<and>
   data (markBillPaid refRuntime midJanuary (JStr ''1'') rentState) Bills ! 0
     = [''Bill_ID'' \<mapsto> JStr ''1'', ''Bill_Name'' \<mapsto> JStr ''Rent'', ''Amount_Due'' \<mapsto> JNum 1200,
        ''Due_Date'' \<mapsto> JStr ''2024-01-01'', ''Status'' \<mapsto> JStr ''Paid'',
        ''Paid_Date'' \<mapsto> JStr ''2024-01-15''] \<and>
   data (markBillPaid refRuntime midJanuary (JStr ''1'') rentState) Transactions
     = data rentState Transactions @
       [[''id'' \<mapsto> JNum 1705312800000, ''date'' \<mapsto> JStr ''2024-01-01'',
         ''description'' \<mapsto> JStr ''Rent'', ''category'' \<mapsto> JStr ''Bills'',
         ''amount'' \<mapsto> JNum (- 1200), ''status'' \<mapsto> JStr ''Paid'']]"
proof -
  have rt: "toISODate refRuntime = refISODate" "fromFormat refRuntime = refDate"
    by (simp_all add: refRuntime_def)
  have low: "toLowerCase ''false'' = ''false''"
    by (simp add: toLowerCase_def lowerChar_def)
  show ?thesis
    by (simp add: billsActionMarkPaid_def markBillPaid_def rentState_def midJanuary_def
        getProp_def js_coalesce_def js_or_def billTransaction_def isoDateOf_def paidAmount_def
        isMonthly_def rt low ref_iso_now ref_iso_jan01 ref_date_jan01 Let_def)
qed

section \<open>Properties of the overdue flag\<close>

text \<open>
  What \<open>isOverdue\<close> computes: the status reads \<open>overdue\<close> in any letter case, or it reads
  neither \<open>paid\<close> nor \<open>auto-paid\<close> and the due date parses to an instant before \<open>today\<close>.
\<close>

lemma isOverdue_iff:
  "isOverdue rt today b \<longleftrightarrow>
     (let status = toLowerCase (toStr rt (js_or (getProp b ''Status'') (JStr '''')))
      in status = ''overdue'' \<or>
         (status \<noteq> ''paid'' \<and> status \<noteq> ''auto-paid'' \<and>
          (\<exists>due. toDT rt (getProp b ''Due_Date'') = Some due \<and> due < today)))"
  by (auto simp: isOverdue_def Let_def split: option.splits)

text \<open>
  C6.  \<open>today\<close> is \<open>DateTime.now()\<close>, an instant with its time of day, while a due date
  parses to midnight.  At 10:00 on 2024-01-15 a pending bill due on 2024-01-15 is
  therefore flagged overdue, although its due date is the current day and not a day
  before it.
\<close>

theorem bill_due_today_is_flagged_overdue:
  "isOverdue refRuntime 1705312800000 dueTodayBill \<and>
   getProp dueTodayBill ''Due_Date'' = JStr ''2024-01-15'' \<and>
   getProp dueTodayBill ''Status'' = JStr ''Pending'' \<and>
   toISODate refRuntime 1705312800000 = ''2024-01-15''"
proof -
  have rt: "toISODate refRuntime = refISODate" "fromISO refRuntime = refDate"
    by (simp_all add: refRuntime_def)
  show ?thesis
    by (simp add: isOverdue_def dueTodayBill_def getProp_def js_or_def toDT_def rt
        lower_pending ref_date_jan15 ref_iso_now)
qed

section \<open>Properties of month scoping\<close>

lemma inMonthWindow_iff: "inMonthWindow rt ym v \<longleftrightarrow> withinSelectedMonth rt ym v"
  by (auto simp: inMonthWindow_def withinSelectedMonth_def split: option.splits if_splits)

text \<open>
  C5.  Month scoping keeps the records in their order and keeps a bill exactly when its due
  date or its paid date falls within the selected month, an income or transaction record
  exactly when its date string starts with the selected month, and every budget and
  category.  A bill neither of whose dates is present and valid is left out; nothing is
  raised.
\<close>

theorem filterToCurrentMonth_scoping:
  "filterToCurrentMonth rt s Bills xs =
     filter (\<lambda>b. withinSelectedMonth rt (currentMonth s) (getProp b ''Due_Date'')
                \<or> withinSelectedMonth rt (currentMonth s) (getProp b ''Paid_Date'')) xs \<and>
   filterToCurrentMonth rt s Income xs =
     filter (\<lambda>r. startsWith (dateString rt r) (currentMonth s)) xs \<and>
   filterToCurrentMonth rt s Transactions xs =
     filter (\<lambda>r. startsWith (dateString rt r) (currentMonth s)) xs \<and>
   filterToCurrentMonth rt s Budgets xs = xs \<and>
   filterToCurrentMonth rt s Categories xs = xs \<and>
   (toDT rt (getProp b ''Due_Date'') = None \<and> toDT rt (getProp b ''Paid_Date'') = None \<longrightarrow>
      b \<notin> set (filterToCurrentMonth rt s Bills xs))"
proof (intro conjI impI)
  show bills: "filterToCurrentMonth rt s Bills xs =
     filter (\<lambda>b. withinSelectedMonth rt (currentMonth s) (getProp b ''Due_Date'')
                \<or> withinSelectedMonth rt (currentMonth s) (getProp b ''Paid_Date'')) xs"
    by (simp add: filterToCurrentMonth_def Let_def inMonthWindow_iff)
  show "filterToCurrentMonth rt s Income xs =
     filter (\<lambda>r. startsWith (dateString rt r) (currentMonth s)) xs"
    by (simp add: filterToCurrentMonth_def Let_def dateString_def)
  show "filterToCurrentMonth rt s Transactions xs =
     filter (\<lambda>r. startsWith (dateString rt r) (currentMonth s)) xs"
    by (simp add: filterToCurrentMonth_def Let_def dateString_def)
  show "filterToCurrentMonth rt s Budgets xs = xs"
    by (simp add: filterToCurrentMonth_def Let_def)
  show "filterToCurrentMonth rt s Categories xs = xs"
    by (simp add: filterToCurrentMonth_def Let_def)
  assume "toDT rt (getProp b ''Due_Date'') = None \<and> toDT rt (getProp b ''Paid_Date'') = None"
  then have "\<not> withinSelectedMonth rt (currentMonth s) (getProp b ''Due_Date'')"
    "\<not> withinSelectedMonth rt (currentMonth s) (getProp b ''Paid_Date'')"
    by (auto simp: withinSelectedMonth_def toDT_def)
  then show "b \<notin> set (filterToCurrentMonth rt s Bills xs)"
    by (simp add: bills)
qed

theorem filterToCurrentMonth_scoping_witness:
  "filterToCurrentMonth refRuntime rentState Bills (data rentState Bills) = data rentState Bills \<and>
   filterToCurrentMonth refRuntime (rentState\<lparr>currentMonth := ''2024-02''\<rparr>) Bills
     (data rentState Bills) = [] \<and>
   toDT refRuntime (getProp [''Bill_ID'' \<mapsto> JStr ''9'', ''Due_Date'' \<mapsto> JStr ''soon''] ''Due_Date'') = None \<and>
   toDT refRuntime (getProp [''Bill_ID'' \<mapsto> JStr ''9'', ''Due_Date'' \<mapsto> JStr ''soon''] ''Paid_Date'') = None \<and>
   [''Bill_ID'' \<mapsto> JStr ''9'', ''Due_Date'' \<mapsto> JStr ''soon'']
     \<notin> set (filterToCurrentMonth refRuntime rentState Bills
               [[''Bill_ID'' \<mapsto> JStr ''9'', ''Due_Date'' \<mapsto> JStr ''soon'']])"
proof -
  have rt: "fromISO refRuntime = refDate" "fromFormat refRuntime = refDate"
    "endOfMonth refRuntime = refEndOfMonth"
    by (simp_all add: refRuntime_def)
  have d20: "refDate ''2024-01-20'' = Some 1705708800000" by code_simp
  have bad: "refDate ''soon'' = None" by code_simp
  have inv: "toDT refRuntime (getProp [''Bill_ID'' \<mapsto> JStr ''9'', ''Due_Date'' \<mapsto> JStr ''soon''] ''Due_Date'') = None"
    "toDT refRuntime (getProp [''Bill_ID'' \<mapsto> JStr ''9'', ''Due_Date'' \<mapsto> JStr ''soon''] ''Paid_Date'') = None"
    by (simp_all add: toDT_def getProp_def rt bad)
  note th = filterToCurrentMonth_scoping
  have jan: "filterToCurrentMonth refRuntime rentState Bills (data rentState Bills)
               = data rentState Bills"
    by (simp add: th [where rt = refRuntime and s = rentState and xs = "data rentState Bills"])
       (simp add: rentState_def withinSelectedMonth_def getProp_def rt ref_date_jan01 ref_end_jan d20)
  have feb: "filterToCurrentMonth refRuntime (rentState\<lparr>currentMonth := ''2024-02''\<rparr>) Bills
               (data rentState Bills) = []"
    by (simp add: th [where rt = refRuntime and s = "rentState\<lparr>currentMonth := ''2024-02''\<rparr>"
             and xs = "data rentState Bills"])
       (simp add: rentState_def withinSelectedMonth_def getProp_def rt ref_date_jan01 ref_date_feb01
          ref_end_feb d20)
  from th [where rt = refRuntime and s = rentState
              and b = "[''Bill_ID'' \<mapsto> JStr ''9'', ''Due_Date'' \<mapsto> JStr ''soon'']"
              and xs = "[[''Bill_ID'' \<mapsto> JStr ''9'', ''Due_Date'' \<mapsto> JStr ''soon'']]"] inv
  have out: "[''Bill_ID'' \<mapsto> JStr ''9'', ''Due_Date'' \<mapsto> JStr ''soon'']
     \<notin> set (filterToCurrentMonth refRuntime rentState Bills
               [[''Bill_ID'' \<mapsto> JStr ''9'', ''Due_Date'' \<mapsto> JStr ''soon'']])"
    by blast
  from jan feb inv out show ?thesis by blast
qed

section \<open>Properties of the dashboard figures\<close>

lemma incomeLoop_sum:
  "incomeLoop rt ym xs acc =
     acc + (\<Sum>i\<leftarrow>filter (\<lambda>i. inMonth rt ym (getProp i ''date'')) xs.
              numOrZero rt (getProp i ''amount''))"
  by (induction xs arbitrary: acc) simp_all

lemma transactionLoop_sum:
  "transactionLoop rt ym xs (earned, spent) =
     (earned + (\<Sum>t\<leftarrow>filter (\<lambda>t. inMonth rt ym (getProp t ''date'')
                              \<and> 0 < numOrZero rt (getProp t ''amount'')) xs.
               numOrZero rt (getProp t ''amount'')),
      spent + (\<Sum>t\<leftarrow>filter (\<lambda>t. inMonth rt ym (getProp t ''date'')
                              \<and> numOrZero rt (getProp t ''amount'') < 0) xs.
               \<bar>numOrZero rt (getProp t ''amount'')\<bar>))"
proof (induction xs arbitrary: earned spent)
  case Nil
  show ?case by simp
next
  case (Cons t xs)
  show ?case
  proof (cases "inMonth rt ym (getProp t ''date'')")
    case False
    then show ?thesis by (simp add: Cons.IH)
  next
    case True
    consider "numOrZero rt (getProp t ''amount'') < 0"
      | "numOrZero rt (getProp t ''amount'') = 0"
      | "0 < numOrZero rt (getProp t ''amount'')"
      by linarith
    then show ?thesis
      by cases (simp_all add: True Cons.IH Let_def)
  qed
qed

lemma foldl_plus_sum_list:
  "foldl (\<lambda>sum b. sum + f b) (acc::real) xs = acc + (\<Sum>b\<leftarrow>xs. f b)"
  by (induction xs arbitrary: acc) simp_all


text \<open>The code's date test and its two coercions against the notions of the statements.\<close>

lemma inMonth_dated: "inMonth rt ym (getProp r ''date'') \<longleftrightarrow> datedInMonth rt ym r"
  by (auto simp: inMonth_def datedInMonth_def split: option.splits)

lemma numOrZero_amountValue: "numOrZero rt v = amountValue rt v"
  by (cases v) (simp_all add: numOrZero_def js_or_def split: option.split)


lemma updateDashboardKPIs_money:
  "totalIncome (updateDashboardKPIs rt s) =
     (\<Sum>i\<leftarrow>filter (datedInMonth rt (currentMonth s)) (data s Income).
        amountValue rt (getProp i ''amount''))
     + (\<Sum>t\<leftarrow>filter (\<lambda>t. datedInMonth rt (currentMonth s) t
                        \<and> 0 < amountValue rt (getProp t ''amount'')) (data s Transactions).
        amountValue rt (getProp t ''amount''))"
  "totalExpenses (updateDashboardKPIs rt s) =
     (\<Sum>t\<leftarrow>filter (\<lambda>t. datedInMonth rt (currentMonth s) t
                      \<and> amountValue rt (getProp t ''amount'') < 0) (data s Transactions).
        \<bar>amountValue rt (getProp t ''amount'')\<bar>)"
  "netAmount (updateDashboardKPIs rt s) =
     totalIncome (updateDashboardKPIs rt s) - totalExpenses (updateDashboardKPIs rt s)"
  by (simp_all add: updateDashboardKPIs_def Let_def incomeLoop_sum transactionLoop_sum
      inMonth_dated numOrZero_amountValue)



subsection \<open>The helper \<open>calculateTotals\<close>\<close>

text \<open>
  \<open>calculateTotals\<close> has no month.  It totals the records it is given, whatever their
  dates, and it reads an amount with \<open>parseFloat\<close>, which also accepts a text that only
  starts with a numeral.
\<close>

lemma orZero_positive: "(case x of None \<Rightarrow> False | Some v \<Rightarrow> 0 < v) \<longleftrightarrow> 0 < orZero x"
  by (cases x) (simp_all add: orZero_def)

lemma orZero_negative: "(case x of None \<Rightarrow> False | Some v \<Rightarrow> v < 0) \<longleftrightarrow> orZero x < 0"
  by (cases x) (simp_all add: orZero_def)

lemma orZero_abs: "orZero (map_option abs x) = \<bar>orZero x\<bar>"
  by (cases x) (simp_all add: orZero_def)

lemma calculateTotals_figures:
  "totalIncome (calculateTotals rt d True) =
     (\<Sum>i\<leftarrow>d Income. orZero (floatOf rt (getProp i ''amount'')))
     + (\<Sum>t\<leftarrow>filter (\<lambda>t. 0 < orZero (floatOf rt (getProp t ''amount''))) (d Transactions).
          orZero (floatOf rt (getProp t ''amount'')))"
  "totalIncome (calculateTotals rt d False) =
     (\<Sum>i\<leftarrow>d Income. orZero (floatOf rt (getProp i ''amount'')))"
  "totalExpenses (calculateTotals rt d opt) =
     (\<Sum>t\<leftarrow>filter (\<lambda>t. orZero (floatOf rt (getProp t ''amount'')) < 0) (d Transactions).
          \<bar>orZero (floatOf rt (getProp t ''amount''))\<bar>)"
  "netAmount (calculateTotals rt d opt) =
     totalIncome (calculateTotals rt d opt) - totalExpenses (calculateTotals rt d opt)"
  "budgetUtilization (calculateTotals rt d opt) =
     (if d Budgets = [] then JNum 0
      else JStr (toFixed0 rt ((\<Sum>b\<leftarrow>d Budgets. orZero (floatOf rt (getProp b ''utilization'')))
                              / real (length (d Budgets)))))"
  by (simp_all add: calculateTotals_def Let_def foldl_plus_sum_list orZero_positive
      orZero_negative orZero_abs)

text \<open>
  Given a store whose income records and transactions are all dated in the selected month,
  with amounts that \<open>parseFloat\<close> reads as \<open>Number\<close> does, \<open>calculateTotals\<close> returns the
  three money figures of the dashboard.
\<close>

lemma calculateTotals_of_month_records:
  assumes dated: "\<forall>r\<in>set (data s Income) \<union> set (data s Transactions).
            datedInMonth rt (currentMonth s) r"
    and reads: "\<forall>r\<in>set (data s Income) \<union> set (data s Transactions).
            orZero (floatOf rt (getProp r ''amount'')) = amountValue rt (getProp r ''amount'')"
  shows "totalIncome (calculateTotals rt (data s) True) = totalIncome (updateDashboardKPIs rt s)"
    and "totalExpenses (calculateTotals rt (data s) opt) = totalExpenses (updateDashboardKPIs rt s)"
    and "netAmount (calculateTotals rt (data s) True) = netAmount (updateDashboardKPIs rt s)"
proof -
  let ?f = "\<lambda>r. orZero (floatOf rt (getProp r ''amount''))"
  let ?a = "\<lambda>r. amountValue rt (getProp r ''amount'')"
  let ?dated = "datedInMonth rt (currentMonth s)"
  have inc: "map ?f (data s Income) = map ?a (filter ?dated (data s Income))"
    using dated reads by (simp add: filter_id_conv)
  have pos: "filter (\<lambda>t. 0 < ?f t) (data s Transactions)
      = filter (\<lambda>t. ?dated t \<and> 0 < ?a t) (data s Transactions)"
    using dated reads by (intro filter_cong) auto
  have neg: "filter (\<lambda>t. ?f t < 0) (data s Transactions)
      = filter (\<lambda>t. ?dated t \<and> ?a t < 0) (data s Transactions)"
    using dated reads by (intro filter_cong) auto
  have pos_sum: "map ?f (filter (\<lambda>t. ?dated t \<and> 0 < ?a t) (data s Transactions))
      = map ?a (filter (\<lambda>t. ?dated t \<and> 0 < ?a t) (data s Transactions))"
    using reads by (intro map_cong) auto
  have neg_sum: "map (\<lambda>t. \<bar>?f t\<bar>) (filter (\<lambda>t. ?dated t \<and> ?a t < 0) (data s Transactions))
      = map (\<lambda>t. \<bar>?a t\<bar>) (filter (\<lambda>t. ?dated t \<and> ?a t < 0) (data s Transactions))"
    using reads by (intro map_cong) auto
  show income: "totalIncome (calculateTotals rt (data s) True) = totalIncome (updateDashboardKPIs rt s)"
    by (simp only: calculateTotals_figures updateDashboardKPIs_money inc pos pos_sum)
  have expenses: "totalExpenses (calculateTotals rt (data s) o') = totalExpenses (updateDashboardKPIs rt s)"
    for o'
    by (simp only: calculateTotals_figures updateDashboardKPIs_money neg neg_sum)
  then show "totalExpenses (calculateTotals rt (data s) opt) = totalExpenses (updateDashboardKPIs rt s)" .
  show "netAmount (calculateTotals rt (data s) True) = netAmount (updateDashboardKPIs rt s)"
    using income expenses [of True]
    by (simp only: calculateTotals_figures(4) updateDashboardKPIs_money(3))
qed

text \<open>
  On the store of the scenario \<open>calculateTotals\<close> counts the February income, which the
  dashboard leaves out of January; without that record the two agree.  A text such as
  \<open>12abc\<close> counts as \<open>12\<close> in \<open>calculateTotals\<close> and as \<open>0\<close> on the dashboard.
\<close>

lemma ref_parse_float:
  "refParseFloat ''3000'' = Some 3000" "refParseFloat ''250'' = Some 250"
  "refParseFloat ''-1200'' = Some (- 1200)" "refParseFloat ''100'' = Some 100"
  "refParseFloat ''n/a'' = None" "refParseFloat ''40'' = Some 40"
  "refParseFloat ''45'' = Some 45"
  by (simp_all add: refParseFloat_def Let_def isSpace_def digitVal_def unsignedOf_def)

lemma ref_string_amounts:
  "refString 250 = ''250''" "refString (- 1200) = ''-1200''" "refString 100 = ''100''"
  "refString 40 = ''40''"
  by (simp_all add: refString_def natStr_def digitChar_def)

lemma ref_to_fixed: "refToFixed0 (85 / 2) = ''43''"
  by (simp add: refToFixed0_def natStr_def digitChar_def)

lemma calculateTotals_counts_every_month:
  "calculateTotals refRuntime (data dashboardState) True
     = \<lparr>totalIncome = 3350, totalExpenses = 1200, netAmount = 2150,
        budgetUtilization = JStr ''43''\<rparr>"
proof -
  have rt: "parseFloat_of refRuntime = refParseFloat" "String_of refRuntime = refString"
    "toFixed0 refRuntime = refToFixed0"
    by (simp_all add: refRuntime_def)
  show ?thesis
    by (simp add: calculateTotals_def dashboardState_def floatOf_def orZero_def getProp_def
        js_or_def rt ref_parse_float ref_string_amounts ref_to_fixed Let_def)
qed

lemma calculateTotals_of_month_records_example:
  "totalIncome (calculateTotals refRuntime (data januaryState) True) = 3100 \<and>
   totalExpenses (calculateTotals refRuntime (data januaryState) True) = 1200 \<and>
   netAmount (calculateTotals refRuntime (data januaryState) True) = 1900 \<and>
   totalIncome (updateDashboardKPIs refRuntime januaryState) = 3100 \<and>
   totalExpenses (updateDashboardKPIs refRuntime januaryState) = 1200 \<and>
   netAmount (updateDashboardKPIs refRuntime januaryState) = 1900"
proof -
  have rt: "parseFloat_of refRuntime = refParseFloat" "String_of refRuntime = refString"
    "fromISO refRuntime = refDate" "fromFormat refRuntime = refDate"
    "endOfMonth refRuntime = refEndOfMonth" "Number_of refRuntime = refNumber"
    by (simp_all add: refRuntime_def)
  have num: "refNumber ''n/a'' = None" "refNumber ''3000'' = Some 3000"
    by (simp_all add: refNumber_def trim_def isSpace_def unsignedOf_def digitVal_def)
  have totals: "totalIncome (calculateTotals refRuntime (data januaryState) True) = 3100"
    "totalExpenses (calculateTotals refRuntime (data januaryState) True) = 1200"
    "netAmount (calculateTotals refRuntime (data januaryState) True) = 1900"
    by (simp_all add: calculateTotals_def januaryState_def dashboardState_def floatOf_def
        orZero_def getProp_def js_or_def rt ref_parse_float ref_string_amounts Let_def)
  have dated: "\<forall>r\<in>set (data januaryState Income) \<union> set (data januaryState Transactions).
      datedInMonth refRuntime (currentMonth januaryState) r"
    by (simp add: januaryState_def dashboardState_def inMonth_dated [symmetric] inMonth_def
        getProp_def rt ref_date_jan01 ref_date_jan15 ref_end_jan)
  have reads: "\<forall>r\<in>set (data januaryState Income) \<union> set (data januaryState Transactions).
      orZero (floatOf refRuntime (getProp r ''amount''))
        = amountValue refRuntime (getProp r ''amount'')"
    by (simp add: januaryState_def dashboardState_def floatOf_def orZero_def getProp_def
        js_or_def rt num ref_parse_float ref_string_amounts)
  from calculateTotals_of_month_records [OF dated reads] totals show ?thesis
    by simp
qed

lemma parseFloat_reads_a_prefix:
  "orZero (floatOf refRuntime (JStr ''12abc'')) = 12 \<and> amountValue refRuntime (JStr ''12abc'') = 0"
  by (simp add: floatOf_def orZero_def js_or_def refRuntime_def refParseFloat_def Let_def
      isSpace_def digitVal_def unsignedOf_def refNumber_def trim_def)

section \<open>Properties of the table analytics\<close>








section \<open>Properties of sorting\<close>

lemma insertSorted_insort_key:
  "\<forall>y\<in>set ys. notAfter (cmp x y) \<longleftrightarrow> f x \<le> f y \<Longrightarrow>
   insertSorted cmp x ys = insort_key f x ys"
  by (induction ys) simp_all

lemma stableSort_sort_key:
  "\<forall>a\<in>set xs. \<forall>b\<in>set xs. notAfter (cmp a b) \<longleftrightarrow> f a \<le> f b \<Longrightarrow>
   stableSort cmp xs = sort_key f xs"
proof (induction xs)
  case Nil
  show ?case by (simp add: stableSort_def)
next
  case (Cons x xs)
  from Cons.prems have "stableSort cmp xs = sort_key f xs"
    by (intro Cons.IH) simp
  moreover from Cons.prems
  have "insertSorted cmp x (sort_key f xs) = insort_key f x (sort_key f xs)"
    by (intro insertSorted_insort_key) simp
  ultimately show ?case
    by (simp add: stableSort_def sort_key_def)
qed

lemma comparator_numbers:
  assumes "getProp a k = JNum x" "getProp b k = JNum y"
  shows "notAfter (comparator rt [(k, ''asc'')] a b) \<longleftrightarrow> x \<le> y"
    and "notAfter (comparator rt [(k, ''desc'')] a b) \<longleftrightarrow> y \<le> x"
  using assms by (auto simp: keyCmp_def notAfter_def Let_def)

lemma multiColumnSort_numbers:
  assumes "\<forall>r\<in>set xs. \<exists>v. getProp r k = JNum v"
  shows "multiColumnSort rt xs [(k, ''asc'')] = sort_key (numberAt k) xs"
    and "multiColumnSort rt xs [(k, ''desc'')] = sort_key (\<lambda>r. - numberAt k r) xs"
proof -
  have "notAfter (comparator rt [(k, ''asc'')] a b) \<longleftrightarrow> numberAt k a \<le> numberAt k b"
    and "notAfter (comparator rt [(k, ''desc'')] a b) \<longleftrightarrow> - numberAt k a \<le> - numberAt k b"
    if "a \<in> set xs" "b \<in> set xs" for a b
  proof -
    from that assms obtain x y where "getProp a k = JNum x" "getProp b k = JNum y"
      by blast
    then show "notAfter (comparator rt [(k, ''asc'')] a b) \<longleftrightarrow> numberAt k a \<le> numberAt k b"
      and "notAfter (comparator rt [(k, ''desc'')] a b) \<longleftrightarrow> - numberAt k a \<le> - numberAt k b"
      by (simp_all add: comparator_numbers numberAt_def del: comparator.simps)
  qed
  then show "multiColumnSort rt xs [(k, ''asc'')] = sort_key (numberAt k) xs"
    and "multiColumnSort rt xs [(k, ''desc'')] = sort_key (\<lambda>r. - numberAt k r) xs"
    unfolding multiColumnSort_def by (intro stableSort_sort_key; blast)+
qed

lemma sorted_negated_rev:
  "sorted (map f zs) \<Longrightarrow> sorted (map (\<lambda>r. - f r) (rev zs))" for f :: "'a \<Rightarrow> real"
  by (simp add: sorted_map sorted_wrt_rev)

lemma sort_negated_key:
  fixes f :: "'a \<Rightarrow> real"
  assumes "inj_on f (set xs)"
  shows "sort_key (\<lambda>r. - f r) xs = rev (sort_key f xs)"
proof (rule sort_key_inj_key_eq)
  show "mset xs = mset (rev (sort_key f xs))" by simp
  from assms show "inj_on (\<lambda>r. - f r) (set xs)"
    by (auto simp: inj_on_def)
  show "sorted (map (\<lambda>r. - f r) (rev (sort_key f xs)))"
    by (rule sorted_negated_rev) simp
qed

text \<open>
  C9, amended.  When every record holds a number under the sort column and no two records
  hold the same value there, sorting the collection in descending order gives exactly the
  reverse of sorting it in ascending order, and so does sorting the ascending result in
  descending order.
\<close>

theorem descending_is_reverse_of_ascending:
  assumes numbers: "\<forall>r\<in>set xs. \<exists>v. getProp r k = JNum v"
    and different: "distinct (map (\<lambda>r. getProp r k) xs)"
  shows "multiColumnSort rt xs [(k, ''desc'')] = rev (multiColumnSort rt xs [(k, ''asc'')]) \<and>
     multiColumnSort rt (multiColumnSort rt xs [(k, ''asc'')]) [(k, ''desc'')]
       = rev (multiColumnSort rt xs [(k, ''asc'')])"
proof -
  have inj: "inj_on (numberAt k) (set xs)"
  proof (rule inj_onI)
    fix a b
    assume ab: "a \<in> set xs" "b \<in> set xs" "numberAt k a = numberAt k b"
    with numbers obtain x y where "getProp a k = JNum x" "getProp b k = JNum y"
      by blast
    with ab have "getProp a k = getProp b k"
      by (simp add: numberAt_def)
    with different ab show "a = b"
      by (simp add: distinct_map inj_on_def)
  qed
  let ?asc = "sort_key (numberAt k) xs"
  have asc: "multiColumnSort rt xs [(k, ''asc'')] = ?asc"
    and desc: "multiColumnSort rt xs [(k, ''desc'')] = sort_key (\<lambda>r. - numberAt k r) xs"
    using multiColumnSort_numbers [OF numbers] by simp_all
  have first: "multiColumnSort rt xs [(k, ''desc'')] = rev ?asc"
    by (simp add: desc sort_negated_key [OF inj])
  from numbers have "\<forall>r\<in>set ?asc. \<exists>v. getProp r k = JNum v"
    by simp
  then have "multiColumnSort rt ?asc [(k, ''desc'')] = sort_key (\<lambda>r. - numberAt k r) ?asc"
    by (rule multiColumnSort_numbers)
  also have "\<dots> = rev (sort_key (numberAt k) ?asc)"
    using inj by (intro sort_negated_key) simp
  also have "sort_key (numberAt k) ?asc = ?asc"
    by (rule sort_key_id_if_sorted) simp
  finally show ?thesis
    using first by (simp add: asc)
qed

theorem descending_is_reverse_of_ascending_witness:
  "list_all (\<lambda>r. getProp r ''amount'' \<in> {JNum 3000, JNum 250}) (data incomeState Income) \<and>
   distinct (map (\<lambda>r. getProp r ''amount'') (data incomeState Income)) \<and>
   map (\<lambda>r. getProp r ''id'') (multiColumnSort refRuntime (data incomeState Income) [(''amount'', ''asc'')])
     = [JStr ''2'', JStr ''1''] \<and>
   map (\<lambda>r. getProp r ''id'') (multiColumnSort refRuntime (data incomeState Income) [(''amount'', ''desc'')])
     = [JStr ''1'', JStr ''2'']"
proof -
  let ?xs = "data incomeState Income"
  have vals: "list_all (\<lambda>r. getProp r ''amount'' \<in> {JNum 3000, JNum 250}) ?xs"
    by (simp add: incomeState_def getProp_def)
  then have numbers: "\<forall>r\<in>set ?xs. \<exists>v. getProp r ''amount'' = JNum v"
    by (auto simp: list_all_iff)
  have different: "distinct (map (\<lambda>r. getProp r ''amount'') ?xs)"
    by (simp add: incomeState_def getProp_def)
  have asc: "map (\<lambda>r. getProp r ''id'') (multiColumnSort refRuntime ?xs [(''amount'', ''asc'')])
     = [JStr ''2'', JStr ''1'']"
    by (simp add: multiColumnSort_def stableSort_def incomeState_def keyCmp_def getProp_def
        notAfter_def)
  from descending_is_reverse_of_ascending [OF numbers different, of refRuntime]
  have "map (\<lambda>r. getProp r ''id'') (multiColumnSort refRuntime ?xs [(''amount'', ''desc'')])
     = rev (map (\<lambda>r. getProp r ''id'') (multiColumnSort refRuntime ?xs [(''amount'', ''asc'')]))"
    by (simp add: rev_map)
  with asc vals different show ?thesis by simp
qed

text \<open>
  The claim as written fails when two records hold the same value: the sort is stable, so
  both directions keep such records in their original order, and the descending result
  is not the reverse of the ascending one.
\<close>

theorem descending_ties_counterexample:
  "multiColumnSort refRuntime tiedRows [(''amount'', ''asc'')] = tiedRows \<and>
   multiColumnSort refRuntime tiedRows [(''amount'', ''desc'')] = tiedRows \<and>
   multiColumnSort refRuntime tiedRows [(''amount'', ''desc'')]
     \<noteq> rev (multiColumnSort refRuntime tiedRows [(''amount'', ''asc'')])"
proof -
  have asc: "multiColumnSort refRuntime tiedRows [(''amount'', ''asc'')] = tiedRows"
    and desc: "multiColumnSort refRuntime tiedRows [(''amount'', ''desc'')] = tiedRows"
    by (simp_all add: multiColumnSort_def stableSort_def tiedRows_def keyCmp_def getProp_def
        notAfter_def)
  have "[''id'' \<mapsto> JStr ''1'', ''amount'' \<mapsto> JNum 5] ''id''
          \<noteq> [''id'' \<mapsto> JStr ''2'', ''amount'' \<mapsto> JNum 5] ''id''"
    by simp
  then have "[''id'' \<mapsto> JStr ''1'', ''amount'' \<mapsto> JNum 5]
          \<noteq> [''id'' \<mapsto> JStr ''2'', ''amount'' \<mapsto> JNum (5::real)]"
    by metis
  then have "tiedRows \<noteq> rev tiedRows"
    by (simp add: tiedRows_def)
  with asc desc show ?thesis by simp
qed

section \<open>Properties of splitting, joining and trimming\<close>

lemma splitOn_nonempty: "splitOn sep s \<noteq> []"
  by (induction s) (auto split: list.split)

lemma splitOn_no_sep: "p \<in> set (splitOn sep s) \<Longrightarrow> sep \<notin> set p"
proof (induction s arbitrary: p)
  case Nil
  then show ?case by simp
next
  case (Cons c cs)
  show ?case
  proof (cases "c = sep")
    case True
    with Cons show ?thesis by auto
  next
    case False
    obtain q qs where q: "splitOn sep cs = q # qs"
      using splitOn_nonempty [of sep cs] by (cases "splitOn sep cs") auto
    with Cons.prems False have "p = c # q \<or> p \<in> set qs" by simp
    moreover from q Cons.IH have "sep \<notin> set q" "\<forall>r\<in>set qs. sep \<notin> set r" by simp_all
    ultimately show ?thesis using False by auto
  qed
qed

lemma splitOn_subset: "p \<in> set (splitOn sep s) \<Longrightarrow> set p \<subseteq> set s"
proof (induction s arbitrary: p)
  case Nil
  then show ?case by simp
next
  case (Cons c cs)
  show ?case
  proof (cases "c = sep")
    case True
    with Cons show ?thesis by auto
  next
    case False
    obtain q qs where q: "splitOn sep cs = q # qs"
      using splitOn_nonempty [of sep cs] by (cases "splitOn sep cs") auto
    with Cons.prems False have "p = c # q \<or> p \<in> set qs" by simp
    moreover from q Cons.IH have "set q \<subseteq> set cs" "\<forall>r\<in>set qs. set r \<subseteq> set cs" by simp_all
    ultimately show ?thesis by auto
  qed
qed

lemma splitOn_single: "sep \<notin> set p \<Longrightarrow> splitOn sep p = [p]"
  by (induction p) auto

lemma splitOn_append_sep:
  "sep \<notin> set p \<Longrightarrow> splitOn sep (p @ sep # rest) = p # splitOn sep rest"
  by (induction p) auto

lemma splitOn_joinWith:
  "ps \<noteq> [] \<Longrightarrow> \<forall>p\<in>set ps. sep \<notin> set p \<Longrightarrow> splitOn sep (joinWith sep ps) = ps"
proof (induction ps rule: induct_list012)
  case 1
  then show ?case by simp
next
  case (2 p)
  then show ?case by (simp add: splitOn_single)
next
  case (3 p q ps)
  then show ?case by (simp add: splitOn_append_sep)
qed

lemma trim_subset: "set (trim s) \<subseteq> set s"
proof -
  have "set (dropWhile isSpace (rev (dropWhile isSpace s))) \<subseteq> set (rev (dropWhile isSpace s))"
    by (auto dest: set_dropWhileD)
  also have "\<dots> \<subseteq> set s"
    by (auto dest: set_dropWhileD)
  finally show ?thesis by (simp add: trim_def)
qed

lemma dropWhile_self: "xs = [] \<or> \<not> p (hd xs) \<Longrightarrow> dropWhile p xs = xs"
  by (cases xs) auto

lemma last_dropWhile_keep: "dropWhile p xs \<noteq> [] \<Longrightarrow> last (dropWhile p xs) = last xs"
  by (induction xs) (auto split: if_splits)

lemma trim_id:
  assumes "s = [] \<or> (\<not> isSpace (hd s) \<and> \<not> isSpace (last s))"
  shows "trim s = s"
proof (cases "s = []")
  case True
  then show ?thesis by (simp add: trim_def)
next
  case False
  with assms have h: "\<not> isSpace (hd s)" and l: "\<not> isSpace (last s)" by simp_all
  from h have "dropWhile isSpace s = s" by (simp add: dropWhile_self)
  moreover from l False have "dropWhile isSpace (rev s) = rev s"
    by (intro dropWhile_self) (simp add: hd_rev)
  ultimately show ?thesis by (simp add: trim_def)
qed

lemma trim_trimmed:
  "trim s = [] \<or> (\<not> isSpace (hd (trim s)) \<and> \<not> isSpace (last (trim s)))"
proof (cases "trim s = []")
  case True
  then show ?thesis by simp
next
  case False
  let ?t = "dropWhile isSpace s"
  let ?u = "dropWhile isSpace (rev ?t)"
  from False have u: "?u \<noteq> []" by (simp add: trim_def)
  have t: "?t \<noteq> []"
  proof
    assume "?t = []"
    with u show False by simp
  qed
  from u have "\<not> isSpace (hd ?u)" by (rule hd_dropWhile)
  then have l: "\<not> isSpace (last (trim s))" using u by (simp add: trim_def last_rev)
  from u have "last ?u = last (rev ?t)" by (rule last_dropWhile_keep)
  also have "\<dots> = hd ?t" using t by (simp add: last_rev)
  finally have "hd (trim s) = hd ?t" using u by (simp add: trim_def hd_rev)
  moreover from t have "\<not> isSpace (hd ?t)" by (rule hd_dropWhile)
  ultimately show ?thesis using l by simp
qed

lemma trim_idem: "trim (trim s) = trim s"
  by (rule trim_id) (rule trim_trimmed)

lemma trim_nonblank: "s \<noteq> [] \<Longrightarrow> \<not> isSpace (hd s) \<Longrightarrow> trim s \<noteq> []"
proof -
  assume s: "s \<noteq> []" and h: "\<not> isSpace (hd s)"
  then have d: "dropWhile isSpace s = s" by (simp add: dropWhile_self)
  from s h have "hd s \<in> set (rev s)" "\<not> isSpace (hd s)" by simp_all
  then have "dropWhile isSpace (rev s) \<noteq> []"
    by (auto simp: dropWhile_eq_Nil_conv)
  with d show ?thesis by (simp add: trim_def)
qed

lemma trim_snoc_line_feed:
  assumes "s \<noteq> []" "\<not> isSpace (hd s)" "\<not> isSpace (last s)"
  shows "trim (s @ [CHR 0x0A]) = s"
proof -
  from assms have "dropWhile isSpace (s @ [CHR 0x0A]) = s @ [CHR 0x0A]"
    by (intro dropWhile_self) simp
  moreover have "isSpace (CHR 0x0A)" by (simp add: isSpace_def)
  moreover from assms have "dropWhile isSpace (rev s) = rev s"
    by (intro dropWhile_self) (simp add: hd_rev)
  ultimately show ?thesis by (simp add: trim_def)
qed

section \<open>Properties of the CSV codec\<close>

lemma cleanText_ends: "cleanText s \<Longrightarrow> s = [] \<or> (\<not> isSpace (hd s) \<and> \<not> isSpace (last s))"
  using trim_trimmed [of s] by (simp add: cleanText_def)

lemma cleanText_trim:
  "CHR '','' \<notin> set s \<Longrightarrow> CHR 0x0A \<notin> set s \<Longrightarrow> cleanText (trim s)"
  using trim_subset [of s] by (auto simp: cleanText_def trim_idem)

lemma cleanText_Nil: "cleanText []"
  by (simp add: cleanText_def trim_def)

text \<open>The saved text is its lines joined by line feeds, with one more line feed at the end.\<close>

lemma saved_text_lines:
  "h @ [CHR 0x0A] @ concat (map (\<lambda>b. f b @ [CHR 0x0A]) bs)
     = joinWith (CHR 0x0A) (h # map f bs) @ [CHR 0x0A]"
  by (induction bs arbitrary: h) simp_all

lemma joinWith_nonempty: "ps \<noteq> [] \<Longrightarrow> hd ps \<noteq> [] \<Longrightarrow> joinWith sep ps \<noteq> []"
  by (induction ps rule: induct_list012) simp_all

lemma hd_joinWith: "ps \<noteq> [] \<Longrightarrow> hd ps \<noteq> [] \<Longrightarrow> hd (joinWith sep ps) = hd (hd ps)"
  by (induction ps rule: induct_list012) simp_all

lemma joinWith_nonempty_last: "ps \<noteq> [] \<Longrightarrow> last ps \<noteq> [] \<Longrightarrow> joinWith sep ps \<noteq> []"
  by (induction ps rule: induct_list012) simp_all

lemma last_joinWith:
  "ps \<noteq> [] \<Longrightarrow> last ps \<noteq> [] \<Longrightarrow> last (joinWith sep ps) = last (last ps)"
proof (induction ps rule: induct_list012)
  case 1
  then show ?case by simp
next
  case (2 p)
  then show ?case by simp
next
  case (3 p q ps)
  from "3.prems" have "joinWith sep (q # ps) \<noteq> []"
    by (intro joinWith_nonempty_last) simp_all
  with 3 show ?case by simp
qed

lemma set_joinWith: "set (joinWith sep ps) \<subseteq> insert sep (\<Union>p\<in>set ps. set p)"
  by (induction ps rule: induct_list012) auto

lemma stripCR_solid: "solidLine l \<Longrightarrow> stripCR l = l"
  by (auto simp: solidLine_def stripCR_def isSpace_def)

lemma splitLines_joined:
  assumes "ls \<noteq> []" "\<forall>l\<in>set ls. solidLine l"
  shows "splitLines (joinWith (CHR 0x0A) ls) = ls"
proof -
  from assms have "splitOn (CHR 0x0A) (joinWith (CHR 0x0A) ls) = ls"
    by (intro splitOn_joinWith) (auto simp: solidLine_def)
  moreover from assms have "map stripCR (butlast ls) = butlast ls"
    by (intro map_idI stripCR_solid) (auto dest: in_set_butlastD)
  ultimately show ?thesis
    using assms by (simp add: splitLines_def)
qed

lemma csvLines_saved:
  assumes "ls \<noteq> []" "\<forall>l\<in>set ls. solidLine l"
  shows "csvLines (joinWith (CHR 0x0A) ls @ [CHR 0x0A]) = ls"
proof -
  let ?t = "joinWith (CHR 0x0A) ls"
  from assms have first: "hd ls \<noteq> []" "\<not> isSpace (hd (hd ls))"
    and final: "last ls \<noteq> []" "\<not> isSpace (last (last ls))"
    by (simp_all add: solidLine_def)
  from assms first have "?t \<noteq> []" by (simp add: joinWith_nonempty)
  moreover from assms first have "\<not> isSpace (hd ?t)" by (simp add: hd_joinWith)
  moreover from assms final have "\<not> isSpace (last ?t)" by (simp add: last_joinWith)
  ultimately have "trim (?t @ [CHR 0x0A]) = ?t" by (rule trim_snoc_line_feed)
  moreover from assms have "filter (\<lambda>l. trim l \<noteq> []) ls = ls"
    by (auto simp: filter_id_conv solidLine_def trim_nonblank)
  ultimately show ?thesis
    using assms by (simp add: csvLines_def splitLines_joined)
qed

text \<open>Lines that \<open>csvLines\<close> returns hold no line feed.\<close>

lemma splitLines_no_line_feed: "l \<in> set (splitLines s) \<Longrightarrow> CHR 0x0A \<notin> set l"
proof -
  assume l: "l \<in> set (splitLines s)"
  let ?ps = "splitOn (CHR 0x0A) s"
  have ne: "?ps \<noteq> []" by (rule splitOn_nonempty)
  have strip: "set (stripCR p) \<subseteq> set p" for p
    by (auto simp: stripCR_def dest: in_set_butlastD)
  from l have "l = last ?ps \<or> (\<exists>p\<in>set (butlast ?ps). l = stripCR p)"
    by (auto simp: splitLines_def Let_def)
  then have "\<exists>p\<in>set ?ps. set l \<subseteq> set p"
  proof
    assume "l = last ?ps"
    with ne have "l \<in> set ?ps" by simp
    then show ?thesis by auto
  next
    assume "\<exists>p\<in>set (butlast ?ps). l = stripCR p"
    then obtain p where "p \<in> set (butlast ?ps)" "l = stripCR p" by auto
    with strip [of p] show ?thesis by (auto dest: in_set_butlastD)
  qed
  then obtain p where p: "p \<in> set ?ps" "set l \<subseteq> set p"
    by auto
  from p(1) have "CHR 0x0A \<notin> set p" by (rule splitOn_no_sep)
  with p(2) show ?thesis by auto
qed

lemma csvLines_no_line_feed: "l \<in> set (csvLines text) \<Longrightarrow> CHR 0x0A \<notin> set l"
  by (auto simp: csvLines_def dest: splitLines_no_line_feed)

text \<open>What the first parse puts into a record.\<close>

lemma rawAt_clean:
  "\<forall>v\<in>set vals. CHR '','' \<notin> set v \<and> CHR 0x0A \<notin> set v \<Longrightarrow> cleanText (rawAt vals j)"
  by (simp add: rawAt_def cleanText_trim cleanText_Nil)

lemma fillRow_dom: "dom (fillRow rt vals i hs ob) = dom ob \<union> set hs"
  by (induction hs arbitrary: i ob) auto

lemma fillRow_cells:
  assumes "\<forall>j. cleanText (rawAt vals j)"
    and "\<forall>k v. ob k = Some v \<longrightarrow> (\<exists>raw. cleanText raw \<and> v = cellValue rt k raw)"
  shows "fillRow rt vals i hs ob k = Some v \<Longrightarrow> \<exists>raw. cleanText raw \<and> v = cellValue rt k raw"
  using assms(2)
proof (induction hs arbitrary: i ob)
  case Nil
  then show ?case by simp
next
  case (Cons h hs)
  show ?case
  proof (rule Cons.IH [of "Suc i" "ob(h \<mapsto> cellValue rt h (rawAt vals i))"])
    from Cons.prems(1)
    show "fillRow rt vals (Suc i) hs (ob(h \<mapsto> cellValue rt h (rawAt vals i))) k = Some v"
      by simp
    from Cons.prems(2) assms(1)
    show "\<forall>k v. (ob(h \<mapsto> cellValue rt h (rawAt vals i))) k = Some v \<longrightarrow>
            (\<exists>raw. cleanText raw \<and> v = cellValue rt k raw)"
      by auto
  qed
qed

lemma cellValue_reparses:
  assumes "cleanText raw" and "\<forall>n. cellValue rt k raw = JNum n \<longrightarrow> printsBack rt n"
  shows "reparses rt k (cellValue rt k raw)"
proof (cases "amountLike k \<and> raw \<noteq> []")
  case False
  with assms(1) show ?thesis
    by (auto simp: reparses_def cellValue_def)
next
  case True
  show ?thesis
  proof (cases "Number_of rt raw")
    case None
    with True assms(1) show ?thesis
      by (simp add: reparses_def cellValue_def)
  next
    case (Some n)
    with True have v: "cellValue rt k raw = JNum n"
      by (simp add: cellValue_def)
    with assms(2) have "printsBack rt n" by simp
    with True v show ?thesis
      by (simp add: reparses_def printsBack_def cellValue_def)
  qed
qed

lemma parseLine_savedRecord:
  assumes hs: "set hs = set billsColumns"
    and line: "CHR 0x0A \<notin> set line"
    and numbers: "\<forall>k n. parseLine rt hs line k = Some (JNum n) \<longrightarrow> printsBack rt n"
  shows "savedRecord rt (parseLine rt hs line)"
proof -
  let ?vals = "splitOn CHR '','' line"
  let ?ob = "parseLine rt hs line"
  have "\<forall>v\<in>set ?vals. CHR '','' \<notin> set v \<and> CHR 0x0A \<notin> set v"
    using line by (auto dest: splitOn_no_sep splitOn_subset)
  then have clean: "\<forall>j. cleanText (rawAt ?vals j)"
    by (simp add: rawAt_clean)
  have dom: "dom ?ob = set billsColumns"
    by (simp add: parseLine_def fillRow_dom hs)
  have "reparses rt k (getProp ?ob k)" if "k \<in> set billsColumns" for k
  proof -
    from that dom obtain v where v: "?ob k = Some v" by auto
    then have "fillRow rt ?vals 0 hs Map.empty k = Some v"
      by (simp add: parseLine_def)
    then obtain raw where raw: "cleanText raw" "v = cellValue rt k raw"
      using fillRow_cells [OF clean, of Map.empty rt 0 hs k v] by auto
    from numbers v raw(2) have "\<forall>n. cellValue rt k raw = JNum n \<longrightarrow> printsBack rt n"
      by auto
    with raw(1) have "reparses rt k (cellValue rt k raw)" by (rule cellValue_reparses)
    with v raw(2) show ?thesis by (simp add: getProp_def)
  qed
  with dom show ?thesis by (simp add: savedRecord_def list_all_iff)
qed

text \<open>What the writer makes of a faithfully saved record, and what the parser reads back.\<close>

lemma savedRecord_field:
  assumes "savedRecord rt ob" "k \<in> set billsColumns"
  shows "reparses rt k (getProp ob k)" and "fieldText rt ob k = toStr rt (getProp ob k)"
    and "ob k = Some (getProp ob k)"
proof -
  from assms show r: "reparses rt k (getProp ob k)"
    by (simp add: savedRecord_def list_all_iff)
  then show "fieldText rt ob k = toStr rt (getProp ob k)"
    by (simp add: fieldText_def js_coalesce_def reparses_def)
  from assms have "k \<in> dom ob" by (simp add: savedRecord_def)
  then show "ob k = Some (getProp ob k)" by (auto simp: getProp_def)
qed

lemma billLine_fields:
  assumes "savedRecord rt ob"
  shows "billLine rt ob = joinWith CHR '','' (map (\<lambda>k. toStr rt (getProp ob k)) billsColumns)"
proof -
  have nt: "''Notes'' \<in> set billsColumns" by (simp add: billsColumns_def)
  from savedRecord_field(1) [OF assms nt] savedRecord_field(2) [OF assms nt]
  have "CHR 0x0A \<notin> set (fieldText rt ob ''Notes'')"
    by (simp add: reparses_def cleanText_def)
  then have "map (\<lambda>c. if c = CHR 0x0A then CHR '' '' else c) (fieldText rt ob ''Notes'')
               = fieldText rt ob ''Notes''"
    by (intro map_idI) auto
  then have "billLine rt ob
      = joinWith CHR '','' (map (fieldText rt ob) (butlast billsColumns @ [''Notes'']))"
    by (simp add: billLine_def)
  also have "butlast billsColumns @ [''Notes''] = billsColumns"
    by (simp add: billsColumns_def)
  also have "map (fieldText rt ob) billsColumns = map (\<lambda>k. toStr rt (getProp ob k)) billsColumns"
    by (intro map_cong refl savedRecord_field(2) [OF assms])
  finally show ?thesis .
qed

lemma last_joinWith_long:
  "2 \<le> length fs \<Longrightarrow>
   last (joinWith sep fs) = (if last fs = [] then sep else last (last fs))"
proof (induction fs rule: induct_list012)
  case 1
  then show ?case by simp
next
  case (2 f)
  then show ?case by simp
next
  case (3 f g fs)
  show ?case
  proof (cases fs)
    case Nil
    then show ?thesis by simp
  next
    case (Cons h hs)
    with "3.IH"(2) have "last (joinWith sep (g # fs))
        = (if last (g # fs) = [] then sep else last (last (g # fs)))"
      by simp
    moreover from Cons have "joinWith sep (g # fs) \<noteq> []" by simp
    ultimately show ?thesis by simp
  qed
qed

lemma joinWith_solid:
  assumes "2 \<le> length fs" "\<forall>f\<in>set fs. cleanText f"
  shows "solidLine (joinWith CHR '','' fs)"
proof -
  from assms(1) obtain f g rest where fs: "fs = f # g # rest"
    by (cases fs; cases "tl fs") auto
  have comma: "\<not> isSpace CHR '',''" by (simp add: isSpace_def)
  from assms(2) fs have "f = [] \<or> \<not> isSpace (hd f)"
    using cleanText_ends [of f] by auto
  with comma have first: "\<not> isSpace (hd (joinWith CHR '','' fs))"
    by (cases f) (auto simp: fs)
  from assms(1) have "last fs \<in> set fs" by (intro last_in_set) auto
  with assms(2) have "last fs = [] \<or> \<not> isSpace (last (last fs))"
    using cleanText_ends [of "last fs"] by auto
  with comma assms(1) have final: "\<not> isSpace (last (joinWith CHR '','' fs))"
    by (auto simp: last_joinWith_long)
  from assms(2) have "CHR 0x0A \<notin> (\<Union>p\<in>set fs. set p)"
    by (auto simp: cleanText_def)
  with set_joinWith [of "CHR '',''" fs] have "CHR 0x0A \<notin> set (joinWith CHR '','' fs)"
    by auto
  with first final show ?thesis
    by (simp add: solidLine_def fs)
qed

lemma billLine_solid:
  assumes "savedRecord rt ob"
  shows "solidLine (billLine rt ob)"
proof -
  have "\<forall>f\<in>set (map (\<lambda>k. toStr rt (getProp ob k)) billsColumns). cleanText f"
    using savedRecord_field(1) [OF assms] by (auto simp: reparses_def)
  moreover have "2 \<le> length (map (\<lambda>k. toStr rt (getProp ob k)) billsColumns)"
    by (simp add: billsColumns_def)
  ultimately show ?thesis
    unfolding billLine_fields [OF assms] by (rule joinWith_solid [rotated])
qed

lemma fillRow_restore:
  assumes "\<forall>j<length hs. cellValue rt (hs ! j) (rawAt vals (i + j)) = getProp ob (hs ! j)"
    and "\<forall>k\<in>set hs. ob k \<noteq> None"
  shows "fillRow rt vals i hs ob0 = (\<lambda>k. if k \<in> set hs then ob k else ob0 k)"
  using assms
proof (induction hs arbitrary: i ob0)
  case Nil
  show ?case by simp
next
  case (Cons h hs)
  from Cons.prems(1) have here: "cellValue rt h (rawAt vals i) = getProp ob h"
    by auto
  from Cons.prems(1) have "\<forall>j<length hs. cellValue rt (hs ! j) (rawAt vals (Suc i + j))
      = getProp ob (hs ! j)"
    by auto
  with Cons.prems(2) have "fillRow rt vals (Suc i) hs (ob0(h \<mapsto> cellValue rt h (rawAt vals i)))
      = (\<lambda>k. if k \<in> set hs then ob k else (ob0(h \<mapsto> cellValue rt h (rawAt vals i))) k)"
    by (intro Cons.IH) auto
  moreover from Cons.prems(2) have "ob h = Some (getProp ob h)"
    by (auto simp: getProp_def)
  ultimately show ?case
    using here by (auto simp: fun_eq_iff)
qed

lemma parseLine_billLine:
  assumes "savedRecord rt ob"
  shows "parseLine rt billsColumns (billLine rt ob) = ob"
proof -
  let ?fs = "map (\<lambda>k. toStr rt (getProp ob k)) billsColumns"
  have fields: "\<forall>f\<in>set ?fs. CHR '','' \<notin> set f"
    using savedRecord_field(1) [OF assms] by (auto simp: reparses_def cleanText_def)
  have "splitOn CHR '','' (billLine rt ob) = ?fs"
    unfolding billLine_fields [OF assms]
    using fields by (intro splitOn_joinWith) (simp_all add: billsColumns_def)
  then have "parseLine rt billsColumns (billLine rt ob) = fillRow rt ?fs 0 billsColumns Map.empty"
    by (simp add: parseLine_def)
  also have "\<dots> = (\<lambda>k. if k \<in> set billsColumns then ob k else Map.empty k)"
  proof (rule fillRow_restore)
    show "\<forall>j<length billsColumns. cellValue rt (billsColumns ! j) (rawAt ?fs (0 + j))
        = getProp ob (billsColumns ! j)"
    proof (intro allI impI)
      fix j
      assume j: "j < length billsColumns"
      then have "reparses rt (billsColumns ! j) (getProp ob (billsColumns ! j))"
        by (intro savedRecord_field(1) [OF assms]) simp
      with j show "cellValue rt (billsColumns ! j) (rawAt ?fs (0 + j))
          = getProp ob (billsColumns ! j)"
        by (simp add: rawAt_def reparses_def cleanText_def)
    qed
    show "\<forall>k\<in>set billsColumns. ob k \<noteq> None"
      using savedRecord_field(3) [OF assms] by auto
  qed
  also have "\<dots> = ob"
  proof (rule ext)
    fix k
    from assms have d: "dom ob = set billsColumns" by (simp add: savedRecord_def)
    show "(if k \<in> set billsColumns then ob k else Map.empty k) = ob k"
    proof (cases "k \<in> set billsColumns")
      case True
      then show ?thesis by simp
    next
      case False
      with d have "k \<notin> dom ob" by simp
      then have "ob k = None" by (simp add: domIff)
      with False show ?thesis by simp
    qed
  qed
  finally show ?thesis .
qed

lemma header_line_solid:
  "solidLine ''Bill_ID,Bill_Name,Category,Amount_Due,Due_Date,Paid_Date,Status,Recurring,Frequency,Payment_Method,Notes''"
  by (simp add: solidLine_def isSpace_def)

lemma header_line_columns:
  "map trim (splitOn CHR '',''
     ''Bill_ID,Bill_Name,Category,Amount_Due,Due_Date,Paid_Date,Status,Recurring,Frequency,Payment_Method,Notes'')
   = billsColumns"
  by code_simp

lemma parseCSV_saved:
  assumes "\<forall>ob\<in>set bills. savedRecord rt ob"
  shows "parseCSV rt (saveBillsToCSV rt bills) = bills"
proof -
  let ?h = "''Bill_ID,Bill_Name,Category,Amount_Due,Due_Date,Paid_Date,Status,Recurring,Frequency,Payment_Method,Notes''"
  have saved: "saveBillsToCSV rt bills
      = joinWith (CHR 0x0A) (?h # map (billLine rt) bills) @ [CHR 0x0A]"
    unfolding saveBillsToCSV_def by (rule saved_text_lines)
  have "\<forall>l\<in>set (?h # map (billLine rt) bills). solidLine l"
    using assms header_line_solid by (auto simp: billLine_solid)
  then have lines: "csvLines (saveBillsToCSV rt bills) = ?h # map (billLine rt) bills"
    unfolding saved by (intro csvLines_saved) simp_all
  have "saveBillsToCSV rt bills \<noteq> []"
    by (simp add: saved)
  then have "parseCSV rt (saveBillsToCSV rt bills)
      = map (parseLine rt billsColumns) (map (billLine rt) bills)"
    by (simp add: parseCSV_def lines header_line_columns del: splitOn.simps)
  also have "\<dots> = bills"
    using assms by (simp add: map_idI parseLine_billLine)
  finally show ?thesis .
qed

text \<open>
  C1.  A text is a valid bills file when its header row names exactly the columns of the
  bills file, in any order; cells cannot hold commas or line feeds, since the parser
  splits at every one of them.  Let every number that parsing puts into a record print
  back, as every finite JavaScript number does.  Then writing the parsed records with
  \<open>saveBillsToCSV\<close> and parsing the written text gives the same records, in the same
  order, whatever the order of the columns was.
\<close>

theorem bills_csv_round_trip:
  assumes header: "set (csvHeaders csv) = set billsColumns"
    and numbers: "\<forall>ob\<in>set (parseCSV rt csv). \<forall>k n. ob k = Some (JNum n) \<longrightarrow> printsBack rt n"
  shows "parseCSV rt (saveBillsToCSV rt (parseCSV rt csv)) = parseCSV rt csv"
proof (rule parseCSV_saved, rule ballI)
  fix ob
  assume ob: "ob \<in> set (parseCSV rt csv)"
  from header obtain l0 rest where lines: "csvLines csv = l0 # rest"
    by (cases "csvLines csv") (simp_all add: csvHeaders_def billsColumns_def)
  with header have hs: "set (map trim (splitOn CHR '','' l0)) = set billsColumns"
    by (simp add: csvHeaders_def)
  from ob lines obtain line where line: "line \<in> set rest"
    "ob = parseLine rt (map trim (splitOn CHR '','' l0)) line"
    by (auto simp: parseCSV_def Let_def split: if_splits)
  from line(1) lines have "CHR 0x0A \<notin> set line"
    by (intro csvLines_no_line_feed [of line csv]) simp
  moreover from numbers ob line(2)
  have "\<forall>k n. parseLine rt (map trim (splitOn CHR '','' l0)) line k = Some (JNum n) \<longrightarrow> printsBack rt n"
    by auto
  ultimately show "savedRecord rt ob"
    unfolding line(2) using hs by (intro parseLine_savedRecord)
qed

text \<open>The reference runtime and the codec on the scenario texts.\<close>

lemma ref_number_1200: "refNumber ''1200'' = Some 1200"
  by (simp add: refNumber_def trim_def isSpace_def unsignedOf_def digitVal_def)

lemma ref_number_61_50: "refNumber ''61.50'' = Some 61.5"
  by (simp add: refNumber_def trim_def isSpace_def unsignedOf_def digitVal_def)

lemma ref_number_61_5: "refNumber ''61.5'' = Some 61.5"
  by (simp add: refNumber_def trim_def isSpace_def unsignedOf_def digitVal_def)

lemma ref_string_1200: "refString 1200 = ''1200''"
  by (simp add: refString_def natStr_def digitChar_def)

lemma ref_string_61_5: "refString (123 / 2) = ''61.5''"
  by (simp add: refString_def natStr_def fracStr_def digitChar_def)

lemma ref_prints_back: "printsBack refRuntime 1200" "printsBack refRuntime 61.5"
  by (simp_all add: printsBack_def cleanText_def trim_def isSpace_def refRuntime_def
      ref_string_1200 ref_string_61_5 ref_number_1200 ref_number_61_5)

lemma amountLike_columns:
  "\<not> amountLike ''Bill_ID''" "\<not> amountLike ''Bill_Name''" "\<not> amountLike ''Category''"
  "amountLike ''Amount_Due''" "\<not> amountLike ''Due_Date''" "\<not> amountLike ''Paid_Date''"
  "\<not> amountLike ''Status''" "\<not> amountLike ''Recurring''" "\<not> amountLike ''Frequency''"
  "\<not> amountLike ''Payment_Method''" "\<not> amountLike ''Notes''"
  "\<not> amountLike ''id''" "\<not> amountLike ''name''" "amountLike ''amount''"
  by code_simp+

lemma bills_text_lines:
  "csvLines billsText =
     [''Bill_Name,Bill_ID,Category,Amount_Due,Due_Date,Paid_Date,Status,Recurring,Frequency,Payment_Method,Notes'',
      ''Rent, 1 ,Housing,1200,2024-01-01,,Pending,true,Monthly,Bank,first of the month'',
      ''Power,2,Utilities,61.50,2024-01-20,,Pending,false,,Card,'']"
  by code_simp

lemma bills_text_headers:
  "csvHeaders billsText = [''Bill_Name'', ''Bill_ID'', ''Category'', ''Amount_Due'',
      ''Due_Date'', ''Paid_Date'', ''Status'', ''Recurring'', ''Frequency'', ''Payment_Method'',
      ''Notes'']"
  by code_simp

lemma bills_text_cells:
  "map trim (splitOn CHR '',''
      ''Rent, 1 ,Housing,1200,2024-01-01,,Pending,true,Monthly,Bank,first of the month'')
     = [''Rent'', ''1'', ''Housing'', ''1200'', ''2024-01-01'', '''', ''Pending'', ''true'',
        ''Monthly'', ''Bank'', ''first of the month'']"
  "map trim (splitOn CHR '','' ''Power,2,Utilities,61.50,2024-01-20,,Pending,false,,Card,'')
     = [''Power'', ''2'', ''Utilities'', ''61.50'', ''2024-01-20'', '''', ''Pending'', ''false'',
        '''', ''Card'', '''']"
  by code_simp+

lemma rawAt_trimmed: "rawAt vals j = (if j < length vals then map trim vals ! j else [])"
  by (simp add: rawAt_def)

lemma bills_text_parsed:
  "parseCSV refRuntime billsText =
     [[''Bill_Name'' \<mapsto> JStr ''Rent'', ''Bill_ID'' \<mapsto> JStr ''1'', ''Category'' \<mapsto> JStr ''Housing'',
       ''Amount_Due'' \<mapsto> JNum 1200, ''Due_Date'' \<mapsto> JStr ''2024-01-01'', ''Paid_Date'' \<mapsto> JStr '''',
       ''Status'' \<mapsto> JStr ''Pending'', ''Recurring'' \<mapsto> JStr ''true'',
       ''Frequency'' \<mapsto> JStr ''Monthly'', ''Payment_Method'' \<mapsto> JStr ''Bank'',
       ''Notes'' \<mapsto> JStr ''first of the month''],
      [''Bill_Name'' \<mapsto> JStr ''Power'', ''Bill_ID'' \<mapsto> JStr ''2'', ''Category'' \<mapsto> JStr ''Utilities'',
       ''Amount_Due'' \<mapsto> JNum 61.5, ''Due_Date'' \<mapsto> JStr ''2024-01-20'', ''Paid_Date'' \<mapsto> JStr '''',
       ''Status'' \<mapsto> JStr ''Pending'', ''Recurring'' \<mapsto> JStr ''false'',
       ''Frequency'' \<mapsto> JStr '''', ''Payment_Method'' \<mapsto> JStr ''Card'',
       ''Notes'' \<mapsto> JStr '''']]"
proof -
  have ne: "billsText \<noteq> []" by (simp add: billsText_def)
  have len: "length (splitOn CHR '',''
      ''Rent, 1 ,Housing,1200,2024-01-01,,Pending,true,Monthly,Bank,first of the month'') = 11"
    "length (splitOn CHR '','' ''Power,2,Utilities,61.50,2024-01-20,,Pending,false,,Card,'') = 11"
    by code_simp+
  have hs: "map trim (splitOn CHR '',''
      ''Bill_Name,Bill_ID,Category,Amount_Due,Due_Date,Paid_Date,Status,Recurring,Frequency,Payment_Method,Notes'')
      = [''Bill_Name'', ''Bill_ID'', ''Category'', ''Amount_Due'', ''Due_Date'', ''Paid_Date'',
         ''Status'', ''Recurring'', ''Frequency'', ''Payment_Method'', ''Notes'']"
    using bills_text_headers by (simp add: csvHeaders_def bills_text_lines del: splitOn.simps)
  show ?thesis
    by (simp add: parseCSV_def ne bills_text_lines hs parseLine_def rawAt_trimmed len
        bills_text_cells cellValue_def amountLike_columns refRuntime_def ref_number_1200
        ref_number_61_50 del: splitOn.simps)
qed

lemma bills_text_saved:
  "saveBillsToCSV refRuntime (parseCSV refRuntime billsText) =
     ''Bill_ID,Bill_Name,Category,Amount_Due,Due_Date,Paid_Date,Status,Recurring,Frequency,Payment_Method,Notes''
     @ [CHR 0x0A]
     @ ''1,Rent,Housing,1200,2024-01-01,,Pending,true,Monthly,Bank,first of the month''
     @ [CHR 0x0A]
     @ ''2,Power,Utilities,61.5,2024-01-20,,Pending,false,,Card,''
     @ [CHR 0x0A]"
  unfolding bills_text_parsed
  by (simp add: saveBillsToCSV_def billLine_def fieldText_def billsColumns_def
      getProp_def js_coalesce_def refRuntime_def ref_string_1200 ref_string_61_5)

theorem bills_csv_round_trip_witness:
  "set (csvHeaders billsText) = set billsColumns \<and>
   map (\<lambda>ob. map (getProp ob) billsColumns) (parseCSV refRuntime billsText) =
     [[JStr ''1'', JStr ''Rent'', JStr ''Housing'', JNum 1200, JStr ''2024-01-01'', JStr '''',
       JStr ''Pending'', JStr ''true'', JStr ''Monthly'', JStr ''Bank'',
       JStr ''first of the month''],
      [JStr ''2'', JStr ''Power'', JStr ''Utilities'', JNum 61.5, JStr ''2024-01-20'', JStr '''',
       JStr ''Pending'', JStr ''false'', JStr '''', JStr ''Card'', JStr '''']] \<and>
   printsBack refRuntime 1200 \<and> printsBack refRuntime 61.5 \<and>
   saveBillsToCSV refRuntime (parseCSV refRuntime billsText) =
     ''Bill_ID,Bill_Name,Category,Amount_Due,Due_Date,Paid_Date,Status,Recurring,Frequency,Payment_Method,Notes''
     @ [CHR 0x0A]
     @ ''1,Rent,Housing,1200,2024-01-01,,Pending,true,Monthly,Bank,first of the month''
     @ [CHR 0x0A]
     @ ''2,Power,Utilities,61.5,2024-01-20,,Pending,false,,Card,''
     @ [CHR 0x0A] \<and>
   parseCSV refRuntime (saveBillsToCSV refRuntime (parseCSV refRuntime billsText))
     = parseCSV refRuntime billsText"
proof -
  let ?recs = "parseCSV refRuntime billsText"
  have header: "set (csvHeaders billsText) = set billsColumns"
    unfolding bills_text_headers billsColumns_def by auto
  have vals: "map (\<lambda>ob. map (getProp ob) billsColumns) ?recs =
     [[JStr ''1'', JStr ''Rent'', JStr ''Housing'', JNum 1200, JStr ''2024-01-01'', JStr '''',
       JStr ''Pending'', JStr ''true'', JStr ''Monthly'', JStr ''Bank'',
       JStr ''first of the month''],
      [JStr ''2'', JStr ''Power'', JStr ''Utilities'', JNum 61.5, JStr ''2024-01-20'', JStr '''',
       JStr ''Pending'', JStr ''false'', JStr '''', JStr ''Card'', JStr '''']]"
    unfolding bills_text_parsed by (simp add: billsColumns_def getProp_def)
  have numbers: "\<forall>ob\<in>set ?recs. \<forall>k n. ob k = Some (JNum n) \<longrightarrow> printsBack refRuntime n"
  proof (intro ballI allI impI)
    fix ob k n
    assume "ob \<in> set ?recs" "ob k = Some (JNum n)"
    then have "n = 1200 \<or> n = 61.5"
      unfolding bills_text_parsed by (auto split: if_splits)
    then show "printsBack refRuntime n"
      by (elim disjE; hypsubst) (rule ref_prints_back)+
  qed
  from bills_csv_round_trip [OF header numbers] header vals ref_prints_back bills_text_saved
  show ?thesis by blast
qed

text \<open>
  The header condition cannot be dropped.  On a text with other columns, such as the older
  bills layout, the writer emits its own eleven columns, finds none of them in the record
  and writes empty cells, so the record read back has lost every value.
\<close>

lemma legacy_layout_loses_values:
  "parseCSV refRuntime legacyText
     = [[''id'' \<mapsto> JStr ''7'', ''name'' \<mapsto> JStr ''Rent'', ''amount'' \<mapsto> JNum 1200]] \<and>
   saveBillsToCSV refRuntime (parseCSV refRuntime legacyText) =
     ''Bill_ID,Bill_Name,Category,Amount_Due,Due_Date,Paid_Date,Status,Recurring,Frequency,Payment_Method,Notes''
     @ [CHR 0x0A] @ '',,,,,,,,,,'' @ [CHR 0x0A] \<and>
   map (\<lambda>ob. map (getProp ob) [''id'', ''name'', ''amount'', ''Bill_ID'', ''Bill_Name'', ''Amount_Due''])
       (parseCSV refRuntime (saveBillsToCSV refRuntime (parseCSV refRuntime legacyText)))
     = [[JUndefined, JUndefined, JUndefined, JStr '''', JStr '''', JStr '''']] \<and>
   parseCSV refRuntime (saveBillsToCSV refRuntime (parseCSV refRuntime legacyText))
     \<noteq> parseCSV refRuntime legacyText"
proof -
  let ?h = "''Bill_ID,Bill_Name,Category,Amount_Due,Due_Date,Paid_Date,Status,Recurring,Frequency,Payment_Method,Notes''"
  have ne: "legacyText \<noteq> []" by (simp add: legacyText_def)
  have lines: "csvLines legacyText = [''id,name,amount'', ''7,Rent,1200'']"
    by code_simp
  have cells: "map trim (splitOn CHR '','' ''id,name,amount'') = [''id'', ''name'', ''amount'']"
    "map trim (splitOn CHR '','' ''7,Rent,1200'') = [''7'', ''Rent'', ''1200'']"
    "length (splitOn CHR '','' ''7,Rent,1200'') = 3"
    by code_simp+
  have before: "parseCSV refRuntime legacyText
     = [[''id'' \<mapsto> JStr ''7'', ''name'' \<mapsto> JStr ''Rent'', ''amount'' \<mapsto> JNum 1200]]"
    by (simp add: parseCSV_def ne lines cells parseLine_def rawAt_trimmed cellValue_def
        amountLike_columns refRuntime_def ref_number_1200 del: splitOn.simps)
  have saved: "saveBillsToCSV refRuntime (parseCSV refRuntime legacyText) =
     ?h @ [CHR 0x0A] @ '',,,,,,,,,,'' @ [CHR 0x0A]"
    unfolding before
    by (simp add: saveBillsToCSV_def billLine_def fieldText_def billsColumns_def
        getProp_def js_coalesce_def refRuntime_def)
  have ne': "saveBillsToCSV refRuntime (parseCSV refRuntime legacyText) \<noteq> []"
    unfolding saved by simp
  have lines': "csvLines (saveBillsToCSV refRuntime (parseCSV refRuntime legacyText))
      = [?h, '',,,,,,,,,,'']"
    unfolding saved by code_simp
  have cells': "map trim (splitOn CHR '','' '',,,,,,,,,,'') = ['''', '''', '''', '''', '''', '''', '''', '''', '''', '''', '''']"
    "length (splitOn CHR '','' '',,,,,,,,,,'') = 11"
    by code_simp+
  have after: "map (\<lambda>ob. map (getProp ob) [''id'', ''name'', ''amount'', ''Bill_ID'', ''Bill_Name'', ''Amount_Due''])
       (parseCSV refRuntime (saveBillsToCSV refRuntime (parseCSV refRuntime legacyText)))
     = [[JUndefined, JUndefined, JUndefined, JStr '''', JStr '''', JStr '''']]"
    by (simp add: parseCSV_def [of refRuntime "saveBillsToCSV refRuntime (parseCSV refRuntime legacyText)"]
        ne' lines' header_line_columns billsColumns_def parseLine_def
        rawAt_trimmed cells' cellValue_def getProp_def del: splitOn.simps)
  have "map (\<lambda>ob. map (getProp ob) [''id'', ''name'', ''amount'', ''Bill_ID'', ''Bill_Name'', ''Amount_Due''])
       (parseCSV refRuntime legacyText)
     = [[JStr ''7'', JStr ''Rent'', JNum 1200, JUndefined, JUndefined, JUndefined]]"
    unfolding before by (simp add: getProp_def)
  with after
  have "parseCSV refRuntime (saveBillsToCSV refRuntime (parseCSV refRuntime legacyText))
     \<noteq> parseCSV refRuntime legacyText"
    by auto
  with before saved after show ?thesis by blast
qed

end
